theory Spec2Isabelle
  imports Complex_Main "HOL-Library.Char_ord" "HOL-Library.List_Lexorder"
begin

section \<open>Data model\<close>

text \<open>
  A domain identifier is a string; its first four characters name the source structure.
  A classification code is the 4-tuple of integers that \<^verbatim>\<open>parse_cath_file\<close> stores.
  A feature record is the inner dictionary that \<^verbatim>\<open>aggregate_domain_features\<close> fills: every
  key but \<^verbatim>\<open>stability_class\<close> holds a number, \<^verbatim>\<open>stability_class\<close> holds a string. The
  feature values and the validator's statistics are idealised as reals; the sample ratio and
  the products that decide how many domains are drawn are IEEE doubles (see the section on
  double arithmetic).
\<close>

type_synonym domain_id = string
type_synonym cath_code = "int \<times> int \<times> int \<times> int"

record feature_record =
  numeric :: "string \<rightharpoonup> real"
  stability_class :: "string option"

definition empty_record :: feature_record where
  "empty_record = \<lparr>numeric = Map.empty, stability_class = None\<rparr>"

datatype py_error = IndexError | KeyError | ValueError | ZeroDivisionError

definition ebind :: "py_error + 'a \<Rightarrow> ('a \<Rightarrow> py_error + 'b) \<Rightarrow> py_error + 'b" where
  "ebind m f = (case m of Inl e \<Rightarrow> Inl e | Inr x \<Rightarrow> f x)"

text \<open>A Python dictionary whose items are iterated: an association list in insertion order.\<close>

type_synonym results = "(string \<times> real) list"

definition dict_set :: "results \<Rightarrow> string \<Rightarrow> real \<Rightarrow> results" where
  "dict_set d k v = (if k \<in> set (map fst d) then map (\<lambda>(k', v'). if k' = k then (k', v) else (k', v')) d
                     else d @ [(k, v)])"

definition dict_get :: "results \<Rightarrow> string \<Rightarrow> real \<Rightarrow> real" where
  "dict_get d k dflt = (case map_of d k of None \<Rightarrow> dflt | Some v \<Rightarrow> v)"

definition endswith :: "string \<Rightarrow> string \<Rightarrow> bool" where
  "endswith s suffix = (length suffix \<le> length s \<and> drop (length s - length suffix) s = suffix)"

text \<open>Keys of a \<^verbatim>\<open>Counter\<close> or the elements of a \<^verbatim>\<open>set(...)\<close>, in order of first occurrence.\<close>

fun uniq :: "'a list \<Rightarrow> 'a list" where
  "uniq [] = []"
| "uniq (x # xs) = x # filter (\<lambda>y. y \<noteq> x) (uniq xs)"

section \<open>The validator (validation.py)\<close>

text \<open>
  \<^verbatim>\<open>scipy.stats.kstest\<close> and \<^verbatim>\<open>scipy.stats.chi2.cdf\<close> are library code: they are parameters
  \<open>ks\<close> (which may raise) and \<open>cdf\<close> of the model.
\<close>

type_synonym kstest = "real list \<Rightarrow> real list \<Rightarrow> py_error + real"
type_synonym chi2cdf = "real \<Rightarrow> nat \<Rightarrow> real"

text \<open>\<^verbatim>\<open>[domain_features[d][key] for d in ds]\<close>: a missing key raises \<^verbatim>\<open>KeyError\<close>.\<close>

fun field_list :: "(domain_id \<rightharpoonup> feature_record) \<Rightarrow> string \<Rightarrow> domain_id list \<Rightarrow> py_error + real list" where
  "field_list df key [] = Inr []"
| "field_list df key (d # ds) =
     (case df d of None \<Rightarrow> Inl KeyError
      | Some f \<Rightarrow> (case numeric f key of None \<Rightarrow> Inl KeyError
                   | Some v \<Rightarrow> ebind (field_list df key ds) (\<lambda>vs. Inr (v # vs))))"

text \<open>\<^verbatim>\<open>domain_features.get(holdout_with_features[0], {})\<close>: indexing an empty list raises.\<close>

definition first_record :: "(domain_id \<rightharpoonup> feature_record) \<Rightarrow> domain_id list \<Rightarrow> py_error + feature_record" where
  "first_record df hwf =
     (case hwf of [] \<Rightarrow> Inl IndexError
      | d # _ \<Rightarrow> Inr (case df d of None \<Rightarrow> empty_record | Some f \<Rightarrow> f))"

text \<open>Lines 13-18: the size distribution.\<close>

definition size_step :: "kstest \<Rightarrow> (domain_id \<rightharpoonup> feature_record) \<Rightarrow> domain_id list \<Rightarrow> domain_id list
    \<Rightarrow> results \<Rightarrow> py_error + results" where
  "size_step ks df hwf awf vr =
     ebind (field_list df ''size'' hwf) (\<lambda>holdout_sizes.
     ebind (field_list df ''size'' awf) (\<lambda>all_sizes.
     ebind (ks holdout_sizes all_sizes) (\<lambda>ks_size_pval.
     Inr (dict_set vr ''ks_size_pval'' ks_size_pval))))"

text \<open>Lines 20-28: the RMSF distribution at 320K, gated on the first holdout domain.\<close>

definition rmsf_step :: "kstest \<Rightarrow> (domain_id \<rightharpoonup> feature_record) \<Rightarrow> domain_id list \<Rightarrow> domain_id list
    \<Rightarrow> results \<Rightarrow> py_error + results" where
  "rmsf_step ks df hwf awf vr =
     ebind (first_record df hwf) (\<lambda>f0.
     if numeric f0 ''avg_rmsf_320'' \<noteq> None then
       (let has = (\<lambda>d. case df d of None \<Rightarrow> False | Some f \<Rightarrow> numeric f ''avg_rmsf_320'' \<noteq> None) in
        ebind (field_list df ''avg_rmsf_320'' (filter has hwf)) (\<lambda>holdout_rmsf.
        ebind (field_list df ''avg_rmsf_320'' (filter has awf)) (\<lambda>all_rmsf.
        ebind (ks holdout_rmsf all_rmsf) (\<lambda>ks_rmsf_pval.
        Inr (dict_set vr ''ks_rmsf_pval'' ks_rmsf_pval)))))
     else Inr vr)"

text \<open>Lines 30-41: secondary structure composition.\<close>

definition ss_step :: "kstest \<Rightarrow> (domain_id \<rightharpoonup> feature_record) \<Rightarrow> domain_id list \<Rightarrow> domain_id list
    \<Rightarrow> results \<Rightarrow> py_error + results" where
  "ss_step ks df hwf awf vr =
     ebind (field_list df ''helix_pct'' hwf) (\<lambda>holdout_helix.
     ebind (field_list df ''helix_pct'' awf) (\<lambda>all_helix.
     ebind (field_list df ''sheet_pct'' hwf) (\<lambda>holdout_sheet.
     ebind (field_list df ''sheet_pct'' awf) (\<lambda>all_sheet.
     ebind (ks holdout_helix all_helix) (\<lambda>ks_helix_pval.
     ebind (ks holdout_sheet all_sheet) (\<lambda>ks_sheet_pval.
     Inr (dict_set (dict_set vr ''ks_helix_pval'' ks_helix_pval) ''ks_sheet_pval'' ks_sheet_pval)))))))"

text \<open>Lines 43-69: the chi-squared test on the class level.\<close>

definition cath_of :: "(domain_id \<rightharpoonup> cath_code) \<Rightarrow> domain_id list \<Rightarrow> cath_code list" where
  "cath_of cath_dict ds = List.map_filter cath_dict ds"

definition chi2_step :: "chi2cdf \<Rightarrow> cath_code list \<Rightarrow> cath_code list \<Rightarrow> results \<Rightarrow> results" where
  "chi2_step cdf holdout_cath all_cath vr =
     (let holdout_class = map fst holdout_cath;
          all_class = map fst all_cath;
          holdout_keys = uniq holdout_class;
          all_keys = uniq all_class;
          expected = (\<lambda>c. real (count_list all_class c) * real (length holdout_class) / real (length all_class))
      in if length holdout_keys > 1 \<and> length all_keys > 1 then
           (let chi2 = sum_list (map (\<lambda>c. if expected c > 0
                                             then (real (count_list holdout_class c) - expected c)\<^sup>2 / expected c
                                             else 0) all_keys);
                df = length all_keys - 1
            in dict_set vr ''chi2_class_pval'' (1 - cdf chi2 df))
         else vr)"

text \<open>Lines 71-84: stability class representation, gated on the first holdout domain.\<close>

definition stability_of :: "(domain_id \<rightharpoonup> feature_record) \<Rightarrow> domain_id \<Rightarrow> string" where
  "stability_of df d =
     (case df d of None \<Rightarrow> ''unknown''
      | Some f \<Rightarrow> (case stability_class f of None \<Rightarrow> ''unknown'' | Some s \<Rightarrow> s))"

definition stability_step :: "(domain_id \<rightharpoonup> feature_record) \<Rightarrow> domain_id list \<Rightarrow> domain_id list
    \<Rightarrow> results \<Rightarrow> py_error + results" where
  "stability_step df hwf awf vr =
     ebind (first_record df hwf) (\<lambda>f0.
     if stability_class f0 \<noteq> None then
       (let stability_classes = uniq (map (stability_of df) awf);
            represented_classes = uniq (map (stability_of df) hwf);
            stability_coverage = (if stability_classes \<noteq> []
                                  then real (length represented_classes) / real (length stability_classes)
                                  else 1)
        in Inr (dict_set vr ''stability_coverage'' stability_coverage))
     else Inr vr)"

text \<open>Lines 86-101: hierarchy coverage.\<close>

definition coverage :: "'a list \<Rightarrow> 'a list \<Rightarrow> real" where
  "coverage hs as = (if uniq as \<noteq> [] then real (length (uniq hs)) / real (length (uniq as)) else 1)"

definition hierarchy_coverage_of :: "cath_code list \<Rightarrow> cath_code list \<Rightarrow> real" where
  "hierarchy_coverage_of holdout_cath all_cath =
     (let c_coverage = coverage (map fst holdout_cath) (map fst all_cath);
          ca_coverage = coverage (map (\<lambda>(c, a, t, h). (c, a)) holdout_cath)
                                 (map (\<lambda>(c, a, t, h). (c, a)) all_cath);
          cat_coverage = coverage (map (\<lambda>(c, a, t, h). (c, a, t)) holdout_cath)
                                  (map (\<lambda>(c, a, t, h). (c, a, t)) all_cath)
      in 0.2 * c_coverage + 0.3 * ca_coverage + 0.5 * cat_coverage)"

text \<open>
  Lines 103-111: distribution similarity and the index. \<^verbatim>\<open>x ** (1/3)\<close> is \<open>x powr (1/3)\<close>;
  on a negative \<open>x\<close> NumPy yields nan, which reals do not have, so the index of the model is
  meaningful only when the product is not negative.
\<close>

definition mean :: "real list \<Rightarrow> real" where
  "mean xs = sum_list xs / real (length xs)"

definition index_step :: "real \<Rightarrow> results \<Rightarrow> results" where
  "index_step hierarchy_coverage vr0 =
     (let vr1 = dict_set vr0 ''hierarchy_coverage'' hierarchy_coverage;
          p_values = map snd (filter (\<lambda>(k, v). endswith k ''_pval'') vr1);
          distribution_similarity = (if p_values \<noteq> [] then mean p_values else 0);
          vr2 = dict_set vr1 ''distribution_similarity'' distribution_similarity;
          stability_coverage = dict_get vr2 ''stability_coverage'' 1;
          ri = (distribution_similarity * hierarchy_coverage * stability_coverage) powr (1/3)
      in dict_set vr2 ''representation_index'' ri)"

definition statistical_validation :: "kstest \<Rightarrow> chi2cdf \<Rightarrow> domain_id list \<Rightarrow> domain_id list
    \<Rightarrow> (domain_id \<rightharpoonup> feature_record) \<Rightarrow> (domain_id \<rightharpoonup> cath_code) \<Rightarrow> py_error + results" where
  "statistical_validation ks cdf holdout_domains all_domains domain_features cath_dict =
     (let holdout_with_features = filter (\<lambda>d. domain_features d \<noteq> None) holdout_domains;
          all_with_features = filter (\<lambda>d. domain_features d \<noteq> None) all_domains;
          holdout_cath = cath_of cath_dict holdout_domains;
          all_cath = cath_of cath_dict all_domains
      in ebind (size_step ks domain_features holdout_with_features all_with_features []) (\<lambda>vr.
         ebind (rmsf_step ks domain_features holdout_with_features all_with_features vr) (\<lambda>vr.
         ebind (ss_step ks domain_features holdout_with_features all_with_features vr) (\<lambda>vr.
         ebind (stability_step domain_features holdout_with_features all_with_features
                  (chi2_step cdf holdout_cath all_cath vr)) (\<lambda>vr.
         Inr (index_step (hierarchy_coverage_of holdout_cath all_cath) vr))))))"

definition calculate_representation_index :: "results \<Rightarrow> real" where
  "calculate_representation_index validation_results =
     (let distribution_similarity = dict_get validation_results ''distribution_similarity'' 0;
          hierarchy_coverage = dict_get validation_results ''hierarchy_coverage'' 0;
          stability_coverage = dict_get validation_results ''stability_coverage'' 0
      in (distribution_similarity * hierarchy_coverage * stability_coverage) powr (1/3))"

section \<open>Randomness and library clustering\<close>

text \<open>
  NumPy's global generator is a stream of raw draws, passed along explicitly. \<^verbatim>\<open>random()\<close> is a
  53-bit fraction in [0,1); \<^verbatim>\<open>choice(xs)\<close> picks a position of \<open>xs\<close>; \<^verbatim>\<open>choice(xs, k,
  replace=False)\<close> picks \<open>k\<close> positions one after another, removing each, and raises when
  \<open>k\<close> exceeds the population. Every outcome NumPy can produce is the outcome of some stream.
\<close>

type_synonym rng = "nat \<Rightarrow> nat"

definition draw :: "rng \<Rightarrow> nat \<times> rng" where
  "draw g = (g 0, \<lambda>i. g (Suc i))"

definition np_random :: "rng \<Rightarrow> real \<times> rng" where
  "np_random g = (case draw g of (n, g') \<Rightarrow> (real (n mod 2 ^ 53) / 2 ^ 53, g'))"

definition np_choice :: "rng \<Rightarrow> 'a list \<Rightarrow> 'a \<times> rng" where
  "np_choice g xs = (case draw g of (n, g') \<Rightarrow> (xs ! (n mod length xs), g'))"

fun choice_no_replace :: "rng \<Rightarrow> 'a list \<Rightarrow> nat \<Rightarrow> 'a list \<times> rng" where
  "choice_no_replace g xs 0 = ([], g)"
| "choice_no_replace g xs (Suc k) =
     (case draw g of (n, g1) \<Rightarrow>
        (let i = n mod length xs in
         case choice_no_replace g1 (take i xs @ drop (Suc i) xs) k of (ys, g2) \<Rightarrow> (xs ! i # ys, g2)))"

definition np_choice_k :: "rng \<Rightarrow> 'a list \<Rightarrow> nat \<Rightarrow> py_error + ('a list \<times> rng)" where
  "np_choice_k g xs k = (if k > length xs then Inl ValueError else Inr (choice_no_replace g xs k))"

text \<open>
  Iterating a Python set of strings visits its elements in an order that depends on the
  interpreter's hash seed and on how the set was built. The order is a parameter: for the
  elements in the order they were inserted, it gives the draws that arrange them. Every
  arrangement is the result of some such parameter, and every result is an arrangement.
\<close>

type_synonym set_order = "domain_id list \<Rightarrow> rng"

definition py_set_iter :: "set_order \<Rightarrow> domain_id list \<Rightarrow> domain_id list" where
  "py_set_iter order xs = fst (choice_no_replace (order xs) xs (length xs))"

section \<open>Double arithmetic\<close>

text \<open>
  The sample ratio is a Python float, and so are its products with a list length: IEEE 754
  binary64, every operation rounded to the nearest double, ties to the even mantissa. A
  double is modelled as the real it denotes; \<open>round_double\<close> rounds a real to the nearest
  double (53-bit mantissa, subnormals below \<open>2^-1022\<close>; overflow does not arise for the
  magnitudes here). \<^verbatim>\<open>np.ceil\<close> and \<^verbatim>\<open>int()\<close> of a double are exact.
\<close>

definition pow2 :: "int \<Rightarrow> real" where
  "pow2 e = (if 0 \<le> e then 2 ^ nat e else 1 / 2 ^ nat (- e))"

definition round_half_even :: "real \<Rightarrow> int" where
  "round_half_even y =
     (let f = \<lfloor>y\<rfloor>
      in if y - of_int f < 1/2 then f
         else if 1/2 < y - of_int f then f + 1
         else if even f then f else f + 1)"

definition double_exponent :: "real \<Rightarrow> int" where
  "double_exponent x = max (- 1022) \<lfloor>log 2 \<bar>x\<bar>\<rfloor>"

definition round_double :: "real \<Rightarrow> real" where
  "round_double x =
     (if x = 0 then 0
      else (let quantum = pow2 (double_exponent x - 52)
            in of_int (round_half_even (x / quantum)) * quantum))"

definition double_mul :: "real \<Rightarrow> real \<Rightarrow> real" where
  "double_mul a b = round_double (a * b)"

definition double_add :: "real \<Rightarrow> real \<Rightarrow> real" where
  "double_add a b = round_double (a + b)"

text \<open>The literal \<^verbatim>\<open>0.1\<close>.\<close>

definition double_tenth :: real where
  "double_tenth = round_double (1/10)"

text \<open>\<^verbatim>\<open>int(x)\<close> truncates towards zero.\<close>

definition py_int :: "real \<Rightarrow> int" where
  "py_int x = (if 0 \<le> x then \<lfloor>x\<rfloor> else \<lceil>x\<rceil>)"

text \<open>
  \<^verbatim>\<open>KMeans(n_clusters, random_state=42).fit_predict\<close> is library code: the parameter \<open>kmeans\<close>,
  which returns one label per row or raises.
\<close>

type_synonym clusterer = "nat \<Rightarrow> real list list \<Rightarrow> py_error + nat list"

section \<open>The stratified sampler (sampling.py, lines 7-86)\<close>

text \<open>
  The outer dictionaries: \<open>domain_features\<close> is iterated for its keys, so it is an association
  list; \<open>cath_dict\<close> is only looked up. \<open>domains\<close> is a Python set, iterated in the order
  the parameter \<open>order\<close> gives.
\<close>

type_synonym feature_store = "(domain_id \<times> feature_record) list"

definition group_by_key :: "('a \<Rightarrow> 'k) \<Rightarrow> 'a list \<Rightarrow> ('k \<times> 'a list) list" where
  "group_by_key f xs = map (\<lambda>k. (k, filter (\<lambda>x. f x = k) xs)) (uniq (map f xs))"

text \<open>Lines 9-17: the nested \<open>cath_hierarchy[c][a][t]\<close>, flattened in its iteration order.\<close>

definition strata :: "set_order \<Rightarrow> feature_store \<Rightarrow> (domain_id \<rightharpoonup> cath_code) \<Rightarrow> domain_id list list" where
  "strata order domain_features cath_dict =
     (let domains = py_set_iter order
                      (uniq (filter (\<lambda>d. cath_dict d \<noteq> None) (map fst domain_features)));
          coded = List.map_filter (\<lambda>d. map_option (\<lambda>code. (d, code)) (cath_dict d)) domains
      in concat (map (\<lambda>(c, in_c).
           concat (map (\<lambda>(a, in_a).
             map (\<lambda>(t, in_t). map fst in_t)
                 (group_by_key (\<lambda>(d, c, a, t, h). t) in_a))
               (group_by_key (\<lambda>(d, c, a, t, h). a) in_c)))
             (group_by_key (\<lambda>(d, c, a, t, h). c) coded)))"

definition num_get :: "feature_record \<Rightarrow> string \<Rightarrow> real \<Rightarrow> real" where
  "num_get f key dflt = (case numeric f key of None \<Rightarrow> dflt | Some v \<Rightarrow> v)"

text \<open>Lines 37-50: the feature vector of one domain.\<close>

definition feature_vector :: "feature_record \<Rightarrow> real list" where
  "feature_vector f =
     [num_get f ''size'' 0, num_get f ''helix_pct'' 0, num_get f ''sheet_pct'' 0,
      num_get f ''core_ratio'' 0, num_get f ''avg_accessibility'' 0]
     @ (case numeric f ''avg_rmsf_320'' of None \<Rightarrow> [] | Some v \<Rightarrow> [v])"

text \<open>Lines 56-57: \<^verbatim>\<open>np.array\<close> of ragged rows raises; then each column is standardised.\<close>

definition np_std :: "real list \<Rightarrow> real" where
  "np_std xs = sqrt (mean (map (\<lambda>x. (x - mean xs)\<^sup>2) xs))"

definition normalize :: "real list list \<Rightarrow> py_error + real list list" where
  "normalize m =
     (if list_all (\<lambda>row. length row = length (hd m)) m
      then Inr (map (\<lambda>row. map (\<lambda>j. let col = map (\<lambda>r. r ! j) m
                                    in (row ! j - mean col) / (np_std col + 1 / 10 ^ 10))
                              [0..<length row]) m)
      else Inl ValueError)"

text \<open>Line 65: \<^verbatim>\<open>[domain_order[i] for i, c in enumerate(clusters) if c == cluster_id]\<close>.\<close>

fun cluster_members :: "domain_id list \<Rightarrow> nat list \<Rightarrow> nat \<Rightarrow> py_error + domain_id list" where
  "cluster_members ds [] cluster_id = Inr []"
| "cluster_members ds (c # cs) cluster_id =
     (if c = cluster_id
      then (case ds of [] \<Rightarrow> Inl IndexError
            | d # ds' \<Rightarrow> ebind (cluster_members ds' cs cluster_id) (\<lambda>rest. Inr (d # rest)))
      else cluster_members (tl ds) cs cluster_id)"

text \<open>Lines 64-68: one representative from each non-empty cluster.\<close>

fun representatives :: "rng \<Rightarrow> domain_id list \<Rightarrow> nat list \<Rightarrow> nat list \<Rightarrow> py_error + (domain_id list \<times> rng)" where
  "representatives g domain_order clusters [] = Inr ([], g)"
| "representatives g domain_order clusters (cluster_id # ids) =
     ebind (cluster_members domain_order clusters cluster_id) (\<lambda>cluster_domains.
       if cluster_domains \<noteq> []
       then (case np_choice g cluster_domains of (d, g1) \<Rightarrow>
               ebind (representatives g1 domain_order clusters ids) (\<lambda>(ds, g2). Inr (d # ds, g2)))
       else representatives g domain_order clusters ids)"

text \<open>Line 28: \<^verbatim>\<open>max(1, int(np.ceil(len(domain_list) * sample_ratio)))\<close>, the product a double.\<close>

definition n_clusters_of :: "nat \<Rightarrow> real \<Rightarrow> nat" where
  "n_clusters_of n sample_ratio = nat (max 1 \<lceil>double_mul (real n) sample_ratio\<rceil>)"

text \<open>Lines 78 and 148: \<^verbatim>\<open>max(1, int(n * sample_ratio))\<close>, the product a double.\<close>

definition sample_size :: "nat \<Rightarrow> real \<Rightarrow> nat" where
  "sample_size n sample_ratio = nat (max 1 (py_int (double_mul (real n) sample_ratio)))"

text \<open>Lines 26-80: what one stratum adds to \<open>holdout_domains\<close>.\<close>

definition sample_stratum :: "clusterer \<Rightarrow> (domain_id \<rightharpoonup> feature_record) \<Rightarrow> real \<Rightarrow> rng \<Rightarrow> domain_id list
    \<Rightarrow> py_error + (domain_id list \<times> rng)" where
  "sample_stratum kmeans df sample_ratio g domain_list =
     (if length domain_list \<ge> 10 then
        (let n_clusters = n_clusters_of (length domain_list) sample_ratio;
             domain_order = filter (\<lambda>d. df d \<noteq> None) domain_list;
             feature_matrix = List.map_filter (\<lambda>d. map_option feature_vector (df d)) domain_list
         in if feature_matrix = [] then Inr ([], g)
            else ebind (normalize feature_matrix) (\<lambda>fm.
                 ebind (kmeans n_clusters fm) (\<lambda>clusters.
                 representatives g domain_order clusters [0..<n_clusters])))
      else if length domain_list > 0 then
        (if length domain_list = 1 then
           (case np_random g of (u, g1) \<Rightarrow>
              if u < sample_ratio then Inr ([domain_list ! 0], g1) else Inr ([], g1))
         else np_choice_k g domain_list (sample_size (length domain_list) sample_ratio))
      else Inr ([], g))"

fun sample_strata :: "clusterer \<Rightarrow> (domain_id \<rightharpoonup> feature_record) \<Rightarrow> real \<Rightarrow> rng \<Rightarrow> domain_id list list
    \<Rightarrow> py_error + (domain_id list \<times> rng)" where
  "sample_strata kmeans df sample_ratio g [] = Inr ([], g)"
| "sample_strata kmeans df sample_ratio g (domain_list # rest) =
     ebind (sample_stratum kmeans df sample_ratio g domain_list) (\<lambda>(picked, g1).
     ebind (sample_strata kmeans df sample_ratio g1 rest) (\<lambda>(more, g2).
     Inr (picked @ more, g2)))"

section \<open>The homology filter (sampling.py, lines 88-159)\<close>

definition linked :: "(domain_id \<rightharpoonup> cath_code) \<Rightarrow> domain_id \<Rightarrow> domain_id \<Rightarrow> bool" where
  "linked cath_dict domain1 domain2 =
     (if take 4 domain1 = take 4 domain2 then True
      else if cath_dict domain1 \<noteq> None \<and> cath_dict domain2 \<noteq> None
           then cath_dict domain1 = cath_dict domain2
           else False)"

text \<open>Lines 97-114: the edges, for every pair of positions \<open>i < j\<close>.\<close>

fun build_edges :: "(domain_id \<rightharpoonup> cath_code) \<Rightarrow> domain_id list \<Rightarrow> (domain_id \<times> domain_id) list" where
  "build_edges cath_dict [] = []"
| "build_edges cath_dict (domain1 # rest) =
     map (\<lambda>domain2. (domain1, domain2)) (filter (linked cath_dict domain1) rest)
     @ build_edges cath_dict rest"

definition adjacent :: "(domain_id \<times> domain_id) list \<Rightarrow> domain_id \<Rightarrow> domain_id \<Rightarrow> bool" where
  "adjacent es u v = ((u, v) \<in> set es \<or> (v, u) \<in> set es)"

text \<open>
  \<^verbatim>\<open>nx.connected_components\<close> is library code: for each node not yet seen, in node order, it
  yields the set of nodes reachable from it. \<open>grow\<close> is that search, listing a component
  in the order of discovery. A component is a Python set: where the code iterates one (for
  the majority class, and to extend the final list), the model iterates \<open>py_set_iter\<close> of it.
\<close>

function grow :: "(domain_id \<times> domain_id) list \<Rightarrow> domain_id list \<Rightarrow> domain_id list \<Rightarrow> domain_id list" where
  "grow es nodes seen =
     (let new = filter (\<lambda>u. u \<notin> set seen \<and> list_ex (\<lambda>v. adjacent es v u) seen) nodes
      in if new = [] then seen else grow es nodes (seen @ new))"
  by pat_completeness auto
termination
proof (relation "measure (\<lambda>(es, nodes, seen). length (filter (\<lambda>u. u \<notin> set seen) nodes))", goal_cases)
  case 1
  show ?case by simp
next
  case (2 es nodes seen new)
  from 2(2) obtain u where u: "u \<in> set new" by (cases new) auto
  with 2(1) have un: "u \<in> set nodes" "u \<notin> set seen" by auto
  have "filter (\<lambda>u. u \<notin> set (seen @ new)) nodes
        = filter (\<lambda>u. u \<notin> set new) (filter (\<lambda>u. u \<notin> set seen) nodes)"
    by (auto intro: filter_cong)
  moreover have "length (filter (\<lambda>u. u \<notin> set new) (filter (\<lambda>u. u \<notin> set seen) nodes))
        < length (filter (\<lambda>u. u \<notin> set seen) nodes)"
    by (rule length_filter_less[where x = u]) (use u un in auto)
  ultimately show ?case by simp
qed

declare grow.simps [simp del]

fun components_from :: "(domain_id \<times> domain_id) list \<Rightarrow> domain_id list \<Rightarrow> domain_id list \<Rightarrow> domain_id list
    \<Rightarrow> domain_id list list" where
  "components_from es nodes [] seen = []"
| "components_from es nodes (v # vs) seen =
     (if v \<in> set seen then components_from es nodes vs seen
      else (let c = grow es nodes [v] in c # components_from es nodes vs (seen @ c)))"

definition connected_components :: "(domain_id \<times> domain_id) list \<Rightarrow> domain_id list \<Rightarrow> domain_id list list" where
  "connected_components es nodes = components_from es nodes nodes []"

text \<open>
  Lines 129-142: the majority stability class of a component. The counts are entered in the
  order the component is iterated, and \<^verbatim>\<open>max\<close> keeps the first maximum, so a tie is broken
  by the set's iteration order.
\<close>

definition majority_class :: "set_order \<Rightarrow> (domain_id \<rightharpoonup> feature_record) \<Rightarrow> domain_id list \<Rightarrow> string" where
  "majority_class order df component =
     (let classes = List.map_filter
            (\<lambda>d. map_option (\<lambda>f. case stability_class f of None \<Rightarrow> ''unknown'' | Some s \<Rightarrow> s) (df d))
            (py_set_iter order component);
          stability_counts = map (\<lambda>k. (k, count_list classes k)) (uniq classes)
      in case stability_counts of [] \<Rightarrow> ''unknown''
         | x # xs \<Rightarrow> fst (foldl (\<lambda>best y. if snd best < snd y then y else best) x xs))"

text \<open>Lines 144-152: the draw from each stability bucket.\<close>

fun sample_buckets :: "real \<Rightarrow> rng \<Rightarrow> (string \<times> (nat \<times> domain_id list) list) list
    \<Rightarrow> py_error + (nat list \<times> rng)" where
  "sample_buckets sample_ratio g [] = Inr ([], g)"
| "sample_buckets sample_ratio g ((class_name, components) # rest) =
     (let class_sample_size = sample_size (length components) sample_ratio
      in ebind (np_choice_k g [0..<length components] class_sample_size) (\<lambda>(selected_indices, g1).
         ebind (sample_buckets sample_ratio g1 rest) (\<lambda>(more, g2).
         Inr (map (\<lambda>idx. fst (components ! idx)) selected_indices @ more, g2))))"

definition stability_buckets :: "set_order \<Rightarrow> (domain_id \<rightharpoonup> feature_record) \<Rightarrow> domain_id list list
    \<Rightarrow> (string \<times> (nat \<times> domain_id list) list) list" where
  "stability_buckets order df sorted_components =
     group_by_key (\<lambda>(i, component). majority_class order df component)
       (zip [0..<length sorted_components] sorted_components)"

text \<open>Lines 117-124: the components, largest first (a stable sort). Line 121 computes
  \<^verbatim>\<open>num_components_to_sample\<close>, which nothing reads.\<close>

definition sorted_components_of :: "(domain_id \<rightharpoonup> cath_code) \<Rightarrow> domain_id list \<Rightarrow> domain_id list list" where
  "sorted_components_of cath_dict candidate_domains =
     sort_key (\<lambda>c. - int (length c))
       (connected_components (build_edges cath_dict candidate_domains) (uniq candidate_domains))"

definition network_aware_sampling :: "set_order \<Rightarrow> rng \<Rightarrow> domain_id list \<Rightarrow> (domain_id \<rightharpoonup> feature_record)
    \<Rightarrow> (domain_id \<rightharpoonup> cath_code) \<Rightarrow> real \<Rightarrow> py_error + (domain_id list \<times> rng)" where
  "network_aware_sampling order g candidate_domains df cath_dict sample_ratio =
     (let sorted_components = sorted_components_of cath_dict candidate_domains
      in ebind (sample_buckets sample_ratio g (stability_buckets order df sorted_components))
           (\<lambda>(sampled_indices, g1).
              Inr (concat (map (\<lambda>idx. py_set_iter order (sorted_components ! idx))
                            (sort sampled_indices)), g1)))"

definition hierarchical_stratified_sampling :: "clusterer \<Rightarrow> set_order \<Rightarrow> rng \<Rightarrow> feature_store
    \<Rightarrow> (domain_id \<rightharpoonup> cath_code) \<Rightarrow> real \<Rightarrow> py_error + (domain_id list \<times> rng)" where
  "hierarchical_stratified_sampling kmeans order g domain_features cath_dict sample_ratio =
     ebind (sample_strata kmeans (map_of domain_features) sample_ratio g
              (strata order domain_features cath_dict))
       (\<lambda>(holdout_domains, g1).
          network_aware_sampling order g1 holdout_domains (map_of domain_features) cath_dict
            sample_ratio)"

section \<open>The refinement loop and the output (main.py)\<close>

definition max_iterations :: nat where
  "max_iterations = 5"

text \<open>
  Lines 58-71: the while loop. The index is compared with the literal \<^verbatim>\<open>0.9\<close>; no double
  lies between 9/10 and the double nearest to it, so for the doubles the validator returns
  the comparison is the one with 9/10.
\<close>

function refine :: "clusterer \<Rightarrow> set_order \<Rightarrow> kstest \<Rightarrow> chi2cdf \<Rightarrow> feature_store
    \<Rightarrow> (domain_id \<rightharpoonup> cath_code) \<Rightarrow> nat \<Rightarrow> real \<Rightarrow> domain_id list \<Rightarrow> rng
    \<Rightarrow> py_error + (domain_id list \<times> real \<times> nat \<times> rng)" where
  "refine kmeans order ks cdf domain_features cath_dict iteration ri holdout_domains g =
     (if ri < 0.9 \<and> iteration < max_iterations then
        (case hierarchical_stratified_sampling kmeans order g domain_features cath_dict
                (double_mul double_tenth
                   (double_add 1 (double_mul double_tenth (real (iteration + 1))))) of
           Inl e \<Rightarrow> Inl e
         | Inr (holdout_domains', g') \<Rightarrow>
             (case statistical_validation ks cdf holdout_domains' (map fst domain_features)
                     (map_of domain_features) cath_dict of
                Inl e \<Rightarrow> Inl e
              | Inr validation_results \<Rightarrow>
                  (case map_of validation_results ''representation_index'' of
                     None \<Rightarrow> Inl KeyError
                   | Some ri' \<Rightarrow>
                       refine kmeans order ks cdf domain_features cath_dict (iteration + 1) ri'
                         holdout_domains' g')))
      else Inr (holdout_domains, ri, iteration, g))"
  by pat_completeness auto
termination
  by (relation "measure (\<lambda>(kmeans, order, ks, cdf, domain_features, cath_dict, iteration, ri,
        holdout_domains, g). max_iterations - iteration)") auto

declare refine.simps [simp del]

text \<open>Lines 43-71: the first pass at ratio \<^verbatim>\<open>0.1\<close>, then the loop.\<close>

definition refinement_loop :: "clusterer \<Rightarrow> set_order \<Rightarrow> kstest \<Rightarrow> chi2cdf \<Rightarrow> feature_store
    \<Rightarrow> (domain_id \<rightharpoonup> cath_code) \<Rightarrow> rng \<Rightarrow> py_error + (domain_id list \<times> real \<times> nat \<times> rng)" where
  "refinement_loop kmeans order ks cdf domain_features cath_dict g =
     (case hierarchical_stratified_sampling kmeans order g domain_features cath_dict double_tenth of
        Inl e \<Rightarrow> Inl e
      | Inr (holdout_domains, g1) \<Rightarrow>
          (case statistical_validation ks cdf holdout_domains (map fst domain_features)
                  (map_of domain_features) cath_dict of
             Inl e \<Rightarrow> Inl e
           | Inr validation_results \<Rightarrow>
               (case map_of validation_results ''representation_index'' of
                  None \<Rightarrow> Inl KeyError
                | Some ri \<Rightarrow>
                    refine kmeans order ks cdf domain_features cath_dict 0 ri holdout_domains g1)))"

text \<open>
  Lines 73-87: the two files, as the lists of their lines. The size report of line 74 divides
  by the number of domains.
\<close>

definition main :: "clusterer \<Rightarrow> set_order \<Rightarrow> kstest \<Rightarrow> chi2cdf \<Rightarrow> feature_store
    \<Rightarrow> (domain_id \<rightharpoonup> cath_code) \<Rightarrow> rng \<Rightarrow> py_error + (domain_id list \<times> domain_id list)" where
  "main kmeans order ks cdf domain_features cath_dict g =
     (let all_domains = map fst domain_features
      in case refinement_loop kmeans order ks cdf domain_features cath_dict g of
           Inl e \<Rightarrow> Inl e
         | Inr (holdout_domains, ri, iteration, g') \<Rightarrow>
             if all_domains = [] then Inl ZeroDivisionError
             else (let training_domains = uniq (filter (\<lambda>d. d \<notin> set holdout_domains) all_domains)
                   in Inr (sort holdout_domains, sort training_domains)))"

section \<open>The specification's wording, for comparison\<close>

text \<open>
  The feature vector as the specification words it: the five base features plus the mean RMSF
  at the lowest temperature for which one is recorded. The temperatures are those of the
  input files named in main.py.
\<close>

definition rmsf_keys :: "string list" where
  "rmsf_keys = [''avg_rmsf_320'', ''avg_rmsf_348'', ''avg_rmsf_379'', ''avg_rmsf_413'', ''avg_rmsf_450'']"

definition spec_feature_vector :: "feature_record \<Rightarrow> real list" where
  "spec_feature_vector f =
     [num_get f ''size'' 0, num_get f ''helix_pct'' 0, num_get f ''sheet_pct'' 0,
      num_get f ''core_ratio'' 0, num_get f ''avg_accessibility'' 0]
     @ (case List.find (\<lambda>k. numeric f k \<noteq> None) rmsf_keys of
          None \<Rightarrow> [] | Some k \<Rightarrow> [num_get f k 0])"

text \<open>The bucket sample size as the specification words it: the ceiling of the product, at
  least one.\<close>

definition spec_bucket_size :: "nat \<Rightarrow> real \<Rightarrow> nat" where
  "spec_bucket_size n r = nat (max 1 \<lceil>double_mul (real n) r\<rceil>)"

text \<open>
  The refinement loop as the specification words it. One pass runs the sampler, hands its
  candidates to the filter and the filter's holdout set to the validator, which gives the
  index. Attempt \<open>i\<close> is a pass at ratio \<open>r0 * (1 + 0.1 * i)\<close>, in the program's double
  arithmetic, from scratch: it sees nothing of the earlier attempts but the state of the
  random generator. An index of at least 0.9 stops the loop, and so does the last of the
  additional iterations, whose result is kept whatever its index.
\<close>

definition spec_ratio :: "real \<Rightarrow> nat \<Rightarrow> real" where
  "spec_ratio r0 i = double_mul r0 (double_add 1 (double_mul double_tenth (real i)))"

definition spec_pass :: "(rng \<Rightarrow> real \<Rightarrow> py_error + (domain_id list \<times> rng))
    \<Rightarrow> (rng \<Rightarrow> domain_id list \<Rightarrow> real \<Rightarrow> py_error + (domain_id list \<times> rng))
    \<Rightarrow> (domain_id list \<Rightarrow> py_error + real)
    \<Rightarrow> rng \<Rightarrow> real \<Rightarrow> py_error + (domain_id list \<times> real \<times> rng)" where
  "spec_pass sampler homology_filter validator g r =
     (case sampler g r of
        Inl e \<Rightarrow> Inl e
      | Inr (candidates, g1) \<Rightarrow>
          (case homology_filter g1 candidates r of
             Inl e \<Rightarrow> Inl e
           | Inr (holdout, g2) \<Rightarrow>
               (case validator holdout of
                  Inl e \<Rightarrow> Inl e
                | Inr index \<Rightarrow> Inr (holdout, index, g2))))"

fun spec_refinement :: "(rng \<Rightarrow> real \<Rightarrow> py_error + (domain_id list \<times> rng))
    \<Rightarrow> (rng \<Rightarrow> domain_id list \<Rightarrow> real \<Rightarrow> py_error + (domain_id list \<times> rng))
    \<Rightarrow> (domain_id list \<Rightarrow> py_error + real)
    \<Rightarrow> real \<Rightarrow> nat \<Rightarrow> nat \<Rightarrow> rng \<Rightarrow> py_error + (domain_id list \<times> real \<times> nat \<times> rng)" where
  "spec_refinement sampler homology_filter validator r0 0 i g =
     (case spec_pass sampler homology_filter validator g (spec_ratio r0 i) of
        Inl e \<Rightarrow> Inl e | Inr (holdout, index, g') \<Rightarrow> Inr (holdout, index, i, g'))"
| "spec_refinement sampler homology_filter validator r0 (Suc additional) i g =
     (case spec_pass sampler homology_filter validator g (spec_ratio r0 i) of
        Inl e \<Rightarrow> Inl e
      | Inr (holdout, index, g') \<Rightarrow>
          if index \<ge> 0.9 then Inr (holdout, index, i, g')
          else spec_refinement sampler homology_filter validator r0 additional (Suc i) g')"

section \<open>Concrete inputs\<close>

text \<open>A feature store of two domains, one with RMSF and a stability class, one without;
  library stand-ins that return a fixed p-value.\<close>

definition f_rmsf :: feature_record where
  "f_rmsf = \<lparr>numeric = [''size'' \<mapsto> 100, ''helix_pct'' \<mapsto> 0.5, ''sheet_pct'' \<mapsto> 0.25, ''avg_rmsf_320'' \<mapsto> 1], stability_class = Some ''stable''\<rparr>"
definition f_plain :: feature_record where
  "f_plain = \<lparr>numeric = [''size'' \<mapsto> 80, ''helix_pct'' \<mapsto> 0.5, ''sheet_pct'' \<mapsto> 0.25], stability_class = None\<rparr>"
definition features0 :: feature_store where
  "features0 = [(''1abcA00'', f_plain), (''2xyzA00'', f_rmsf)]"
definition df0 :: "domain_id \<rightharpoonup> feature_record" where
  "df0 = map_of features0"
definition cath0 :: "domain_id \<rightharpoonup> cath_code" where
  "cath0 = [''1abcA00'' \<mapsto> (1,10,10,10), ''2xyzA00'' \<mapsto> (2,20,20,20)]"
definition ks_const :: "real \<Rightarrow> kstest" where "ks_const p xs ys = Inr p"
definition cdf_const :: "real \<Rightarrow> chi2cdf" where "cdf_const q x n = q"
definition vr_plain_first :: "real \<Rightarrow> results" where
  "vr_plain_first p = [(''ks_size_pval'', p), (''ks_helix_pval'', p), (''ks_sheet_pval'', p), (''chi2_class_pval'', p),
     (''hierarchy_coverage'', 1), (''distribution_similarity'', p), (''representation_index'', p powr (1/3))]"
definition vr_rmsf_first :: "real \<Rightarrow> results" where
  "vr_rmsf_first p = [(''ks_size_pval'', p), (''ks_rmsf_pval'', p), (''ks_helix_pval'', p), (''ks_sheet_pval'', p), (''chi2_class_pval'', p),
     (''stability_coverage'', 1),
     (''hierarchy_coverage'', 1), (''distribution_similarity'', p), (''representation_index'', p powr (1/3))]"

text \<open>A generator whose raw draws are all 0.\<close>

definition zero_rng :: rng where
  "zero_rng = (\<lambda>i. 0)"

definition no_features :: "domain_id \<rightharpoonup> feature_record" where
  "no_features = Map.empty"

definition no_cath :: "domain_id \<rightharpoonup> cath_code" where
  "no_cath = Map.empty"

text \<open>A feature record whose only RMSF is at 348K.\<close>

definition f_348 :: feature_record where
  "f_348 = \<lparr>numeric = [''size'' \<mapsto> 100, ''avg_rmsf_348'' \<mapsto> 2], stability_class = None\<rparr>"

text \<open>A stratum of ten domains, a feature store that knows every domain, and a clusterer
  that puts every row into cluster 0.\<close>

definition stratum10 :: "domain_id list" where
  "stratum10 = [''1aaaA00'', ''1aabA00'', ''1aacA00'', ''1aadA00'', ''1aaeA00'',
                ''1aafA00'', ''1aagA00'', ''1aahA00'', ''1aaiA00'', ''1aajA00'']"

definition all_plain :: "domain_id \<rightharpoonup> feature_record" where
  "all_plain = (\<lambda>d. Some f_plain)"

definition kmeans_zero :: clusterer where
  "kmeans_zero k m = Inr (replicate (length m) 0)"

text \<open>A clusterer that puts the first row into cluster 1 and every other row into cluster 0;
  features under which the stability classes of ''1abcA00'' and ''1abcB00'' tie; a set order
  that iterates every set as it was built, and one that iterates it backwards.\<close>

definition kmeans_first :: clusterer where
  "kmeans_first k m = Inr (1 # replicate (length m - 1) 0)"

definition tie_features :: "domain_id \<rightharpoonup> feature_record" where
  "tie_features = [''1abcA00'' \<mapsto> f_rmsf, ''1abcB00'' \<mapsto> f_plain, ''2xyzA00'' \<mapsto> f_plain]"

definition insertion_order :: set_order where
  "insertion_order xs = zero_rng"

definition reverse_order :: set_order where
  "reverse_order xs = (\<lambda>i. length xs - 1 - i)"

section \<open>Properties of the validator\<close>

lemma map_of_replace_other:
  "x \<noteq> k \<Longrightarrow> map_of (map (\<lambda>(k', v'). if k' = k then (k', v) else (k', v')) d) x = map_of d x"
  by (induction d) auto

lemma map_of_replace_same:
  "k \<in> fst ` set d \<Longrightarrow> map_of (map (\<lambda>(k', v'). if k' = k then (k', v) else (k', v')) d) k = Some v"
  by (induction d) auto

lemma map_of_dict_set: "map_of (dict_set d k v) = (map_of d)(k \<mapsto> v)"
proof (cases "k \<in> fst ` set d")
  case False
  then have "map_of d k = None" by (simp add: map_of_eq_None_iff)
  with False show ?thesis
    by (auto simp: dict_set_def map_add_def fun_eq_iff split: option.splits)
next
  case True
  then show ?thesis
    by (auto simp: dict_set_def fun_eq_iff map_of_replace_other map_of_replace_same)
qed

lemma ebind_Inr: "ebind m f = Inr y \<longleftrightarrow> (\<exists>x. m = Inr x \<and> f x = Inr y)"
  by (cases m) (auto simp: ebind_def)

lemma coverage_nonneg: "0 \<le> coverage hs as"
  by (simp add: coverage_def)

lemma hierarchy_coverage_nonneg: "0 \<le> hierarchy_coverage_of hc ac"
  by (simp add: hierarchy_coverage_of_def Let_def coverage_nonneg)

lemma size_step_keep: "size_step ks df hwf awf vr = Inr vr' \<Longrightarrow> map_of vr' ''stability_coverage'' = map_of vr ''stability_coverage''"
  by (auto simp: size_step_def ebind_Inr map_of_dict_set)

lemma rmsf_step_keep: "rmsf_step ks df hwf awf vr = Inr vr' \<Longrightarrow> map_of vr' ''stability_coverage'' = map_of vr ''stability_coverage''"
  by (auto simp: rmsf_step_def ebind_Inr map_of_dict_set Let_def split: if_splits)

lemma ss_step_keep: "ss_step ks df hwf awf vr = Inr vr' \<Longrightarrow> map_of vr' ''stability_coverage'' = map_of vr ''stability_coverage''"
  by (auto simp: ss_step_def ebind_Inr map_of_dict_set)

lemma chi2_step_keep: "map_of (chi2_step cdf hc ac vr) ''stability_coverage'' = map_of vr ''stability_coverage''"
  by (simp add: chi2_step_def Let_def map_of_dict_set)

lemma stability_step_nonneg:
  "stability_step df hwf awf vr = Inr vr' \<Longrightarrow> map_of vr ''stability_coverage'' = None
    \<Longrightarrow> map_of vr' ''stability_coverage'' = Some s \<Longrightarrow> 0 \<le> s"
  by (auto simp: stability_step_def ebind_Inr map_of_dict_set Let_def split: if_splits)

lemma index_step_lookup:
  fixes hc vr0
  defines "res \<equiv> index_step hc vr0"
  shows "\<exists>ds. map_of res ''distribution_similarity'' = Some ds
            \<and> map_of res ''hierarchy_coverage'' = Some hc
            \<and> map_of res ''stability_coverage'' = map_of vr0 ''stability_coverage''
            \<and> map_of res ''representation_index'' = Some ((ds * hc * dict_get res ''stability_coverage'' 1) powr (1/3))"
  unfolding res_def index_step_def Let_def
  by (simp add: map_of_dict_set dict_get_def)

lemma validation_result_shape:
  assumes "statistical_validation ks cdf holdout alls df cath = Inr vr"
  shows "\<exists>vr0. vr = index_step (hierarchy_coverage_of (cath_of cath holdout) (cath_of cath alls)) vr0
       \<and> (\<forall>s. map_of vr0 ''stability_coverage'' = Some s \<longrightarrow> 0 \<le> s)"
proof -
  let ?hwf = "filter (\<lambda>d. df d \<noteq> None) holdout" and ?awf = "filter (\<lambda>d. df d \<noteq> None) alls"
  from assms obtain v1 v2 v3 v4 where
    s1: "size_step ks df ?hwf ?awf [] = Inr v1" and
    s2: "rmsf_step ks df ?hwf ?awf v1 = Inr v2" and
    s3: "ss_step ks df ?hwf ?awf v2 = Inr v3" and
    s4: "stability_step df ?hwf ?awf (chi2_step cdf (cath_of cath holdout) (cath_of cath alls) v3) = Inr v4" and
    vr: "vr = index_step (hierarchy_coverage_of (cath_of cath holdout) (cath_of cath alls)) v4"
    unfolding statistical_validation_def Let_def ebind_Inr by auto
  have "map_of v3 ''stability_coverage'' = None"
    using size_step_keep[OF s1] rmsf_step_keep[OF s2] ss_step_keep[OF s3] by simp
  then have "map_of (chi2_step cdf (cath_of cath holdout) (cath_of cath alls) v3) ''stability_coverage'' = None"
    by (simp add: chi2_step_keep)
  from stability_step_nonneg[OF s4 this] vr show ?thesis by blast
qed

lemma rmsf_step_empty: "rmsf_step ks df [] awf vr = Inl IndexError"
  by (simp add: rmsf_step_def first_record_def ebind_def)

subsection \<open>The validator on the concrete inputs\<close>

lemmas ex_defs = ebind_def ks_const_def df0_def features0_def f_plain_def f_rmsf_def dict_set_def first_record_def

lemma ex_hwf: "filter (\<lambda>d. df0 d \<noteq> None) [''1abcA00'', ''2xyzA00''] = [''1abcA00'', ''2xyzA00'']"
  "filter (\<lambda>d. df0 d \<noteq> None) [''2xyzA00'', ''1abcA00''] = [''2xyzA00'', ''1abcA00'']"
  by (simp_all add: df0_def features0_def)

lemma ex_cath: "cath_of cath0 [''1abcA00'', ''2xyzA00''] = [(1,10,10,10), (2,20,20,20)]"
   "cath_of cath0 [''2xyzA00'', ''1abcA00''] = [(2,20,20,20), (1,10,10,10)]"
  by (simp_all add: cath_of_def cath0_def List.map_filter_simps)

lemma ex_size: "size_step (ks_const p) df0 [''1abcA00'', ''2xyzA00''] [''1abcA00'', ''2xyzA00''] [] = Inr [(''ks_size_pval'', p)]"
   "size_step (ks_const p) df0 [''2xyzA00'', ''1abcA00''] [''1abcA00'', ''2xyzA00''] [] = Inr [(''ks_size_pval'', p)]"
  by (simp_all add: size_step_def ex_defs)

lemma ex_rmsf: "rmsf_step (ks_const p) df0 [''1abcA00'', ''2xyzA00''] [''1abcA00'', ''2xyzA00''] [(''ks_size_pval'', p)] = Inr [(''ks_size_pval'', p)]"
  "rmsf_step (ks_const p) df0 [''2xyzA00'', ''1abcA00''] [''1abcA00'', ''2xyzA00''] [(''ks_size_pval'', p)] = Inr [(''ks_size_pval'', p), (''ks_rmsf_pval'', p)]"
  by (simp_all add: rmsf_step_def ex_defs)

lemma ex_ss: "ss_step (ks_const p) df0 [''1abcA00'', ''2xyzA00''] [''1abcA00'', ''2xyzA00''] [(''ks_size_pval'', p)]
     = Inr [(''ks_size_pval'', p), (''ks_helix_pval'', p), (''ks_sheet_pval'', p)]"
  "ss_step (ks_const p) df0 [''2xyzA00'', ''1abcA00''] [''1abcA00'', ''2xyzA00''] [(''ks_size_pval'', p), (''ks_rmsf_pval'', p)]
     = Inr [(''ks_size_pval'', p), (''ks_rmsf_pval'', p), (''ks_helix_pval'', p), (''ks_sheet_pval'', p)]"
  by (simp_all add: ss_step_def ex_defs)

lemma ex_chi2: "chi2_step (cdf_const (1 - p)) [(1,10,10,10), (2,20,20,20)] [(1,10,10,10), (2,20,20,20)] [(''ks_size_pval'', p), (''ks_helix_pval'', p), (''ks_sheet_pval'', p)]
   = [(''ks_size_pval'', p), (''ks_helix_pval'', p), (''ks_sheet_pval'', p), (''chi2_class_pval'', p)]"
  "chi2_step (cdf_const (1 - p)) [(2,20,20,20), (1,10,10,10)] [(1,10,10,10), (2,20,20,20)] [(''ks_size_pval'', p), (''ks_rmsf_pval'', p), (''ks_helix_pval'', p), (''ks_sheet_pval'', p)]
   = [(''ks_size_pval'', p), (''ks_rmsf_pval'', p), (''ks_helix_pval'', p), (''ks_sheet_pval'', p), (''chi2_class_pval'', p)]"
  by (simp_all add: chi2_step_def cdf_const_def dict_set_def)

lemma ex_stab: "stability_step df0 [''1abcA00'', ''2xyzA00''] [''1abcA00'', ''2xyzA00''] vr = Inr vr"
  "stability_step df0 [''2xyzA00'', ''1abcA00''] [''1abcA00'', ''2xyzA00''] [(''ks_size_pval'', p), (''ks_rmsf_pval'', p), (''ks_helix_pval'', p), (''ks_sheet_pval'', p), (''chi2_class_pval'', p)]
    = Inr [(''ks_size_pval'', p), (''ks_rmsf_pval'', p), (''ks_helix_pval'', p), (''ks_sheet_pval'', p), (''chi2_class_pval'', p), (''stability_coverage'', 1)]"
  by (simp_all add: stability_step_def stability_of_def ex_defs)

lemma ex_hier: "hierarchy_coverage_of [(1,10,10,10), (2,20,20,20)] [(1,10,10,10), (2,20,20,20)] = 1"
  "hierarchy_coverage_of [(2,20,20,20), (1,10,10,10)] [(1,10,10,10), (2,20,20,20)] = 1"
  by (simp_all add: hierarchy_coverage_of_def coverage_def)

lemma ex_index: "index_step 1 [(''ks_size_pval'', p), (''ks_helix_pval'', p), (''ks_sheet_pval'', p), (''chi2_class_pval'', p)] = vr_plain_first p"
  "index_step 1 [(''ks_size_pval'', p), (''ks_rmsf_pval'', p), (''ks_helix_pval'', p), (''ks_sheet_pval'', p), (''chi2_class_pval'', p), (''stability_coverage'', 1)] = vr_rmsf_first p"
  by (simp_all add: index_step_def dict_set_def dict_get_def endswith_def mean_def vr_plain_first_def vr_rmsf_first_def)

lemma ex_plain_first:
  "statistical_validation (ks_const p) (cdf_const (1 - p)) [''1abcA00'', ''2xyzA00''] [''1abcA00'', ''2xyzA00''] df0 cath0 = Inr (vr_plain_first p)"
  unfolding statistical_validation_def Let_def ex_hwf ex_cath
  by (simp only: ex_size ex_rmsf ex_ss ex_chi2 ex_stab ex_hier ex_index ebind_def sum.case)

lemma ex_rmsf_first:
  "statistical_validation (ks_const p) (cdf_const (1 - p)) [''2xyzA00'', ''1abcA00''] [''1abcA00'', ''2xyzA00''] df0 cath0 = Inr (vr_rmsf_first p)"
  unfolding statistical_validation_def Let_def ex_hwf ex_cath
  by (simp only: ex_size ex_rmsf ex_ss ex_chi2 ex_stab ex_hier ex_index ebind_def sum.case)

subsection \<open>Claims about the validator\<close>

text \<open>
  C1. When no holdout domain has a feature record the validator should fail with an error of
  its own. It does not: whatever the holdout list, once the domains without a feature record
  are all it holds, the size test runs on an empty sample, and if the library lets that pass
  the validator indexes the empty list and raises \<^verbatim>\<open>IndexError\<close>.
\<close>

theorem validator_empty_holdout_raises:
  "statistical_validation ks cdf (filter (\<lambda>d. df d = None) hs) alls df cath =
     (case size_step ks df [] (filter (\<lambda>d. df d \<noteq> None) alls) [] of
        Inl e \<Rightarrow> Inl e | Inr vr \<Rightarrow> Inl IndexError)"
proof -
  have "filter (\<lambda>d. df d \<noteq> None) (filter (\<lambda>d. df d = None) hs) = []"
    by (induction hs) auto
  then show ?thesis
    unfolding statistical_validation_def Let_def
    by (simp only: rmsf_step_empty ebind_def sum.case split: sum.splits)
qed

text \<open>
  C6. Whether the RMSF p-value and the stability coverage are computed should not depend on
  which holdout domain comes first. It does: the same two holdout domains give neither metric
  when the domain without the fields is first, and both when it is second.
\<close>

theorem validator_metrics_depend_on_first_domain:
  "statistical_validation (ks_const 1) (cdf_const (1 - 1)) [''1abcA00'', ''2xyzA00'']
       [''1abcA00'', ''2xyzA00''] df0 cath0 = Inr (vr_plain_first 1)
   \<and> statistical_validation (ks_const 1) (cdf_const (1 - 1)) [''2xyzA00'', ''1abcA00'']
       [''1abcA00'', ''2xyzA00''] df0 cath0 = Inr (vr_rmsf_first 1)
   \<and> map_of (vr_plain_first 1) ''ks_rmsf_pval'' = None
   \<and> map_of (vr_plain_first 1) ''stability_coverage'' = None
   \<and> map_of (vr_rmsf_first 1) ''ks_rmsf_pval'' = Some 1
   \<and> map_of (vr_rmsf_first 1) ''stability_coverage'' = Some 1"
  using ex_plain_first[of 1] ex_rmsf_first[of 1]
  by (simp add: vr_plain_first_def vr_rmsf_first_def)

text \<open>
  C7. Every result of the validator stores, as the representation index, the cube root of
  distribution similarity times hierarchy coverage times stability coverage, the last taken
  as 1 when it was not computed (for a distribution similarity that is not negative; the two
  coverages never are). The index is 0 when a factor is 0, and lies in [0,1] when the three
  factors do.
\<close>

theorem representation_index_formula:
  assumes "statistical_validation ks cdf holdout alls df cath = Inr vr"
  shows "\<exists>ds hc ri. map_of vr ''distribution_similarity'' = Some ds
       \<and> map_of vr ''hierarchy_coverage'' = Some hc
       \<and> map_of vr ''representation_index'' = Some ri
       \<and> (let sc = dict_get vr ''stability_coverage'' 1 in
            (0 \<le> ds \<longrightarrow> ri = root 3 (ds * hc * sc))
          \<and> (ds = 0 \<or> hc = 0 \<or> sc = 0 \<longrightarrow> ri = 0)
          \<and> (0 \<le> ds \<and> ds \<le> 1 \<and> 0 \<le> hc \<and> hc \<le> 1 \<and> 0 \<le> sc \<and> sc \<le> 1 \<longrightarrow> 0 \<le> ri \<and> ri \<le> 1))"
proof -
  from validation_result_shape[OF assms] obtain vr0 where
    vr: "vr = index_step (hierarchy_coverage_of (cath_of cath holdout) (cath_of cath alls)) vr0"
    and nn: "\<forall>s. map_of vr0 ''stability_coverage'' = Some s \<longrightarrow> 0 \<le> s" by blast
  let ?hc = "hierarchy_coverage_of (cath_of cath holdout) (cath_of cath alls)"
  let ?sc = "dict_get vr ''stability_coverage'' 1"
  from index_step_lookup[of ?hc vr0] vr obtain ds where
    ds: "map_of vr ''distribution_similarity'' = Some ds" and
    hc: "map_of vr ''hierarchy_coverage'' = Some ?hc" and
    sc: "map_of vr ''stability_coverage'' = map_of vr0 ''stability_coverage''" and
    ri: "map_of vr ''representation_index'' = Some ((ds * ?hc * ?sc) powr (1/3))" by auto
  have sc0: "0 \<le> ?sc" using nn sc by (auto simp: dict_get_def split: option.splits)
  have hc0: "0 \<le> ?hc" by (rule hierarchy_coverage_nonneg)
  have a: "(ds * ?hc * ?sc) powr (1/3) = root 3 (ds * ?hc * ?sc)" if "0 \<le> ds"
  proof (cases "ds * ?hc * ?sc = 0")
    case True then show ?thesis by (simp only: powr_0 real_root_zero)
  next
    case False
    with that hc0 sc0 have "0 < ds * ?hc * ?sc" by (simp add: less_le)
    then show ?thesis using root_powr_inverse[of 3 "ds * ?hc * ?sc"] by simp
  qed
  have b: "(ds * ?hc * ?sc) powr (1/3) = 0" if "ds = 0 \<or> ?hc = 0 \<or> ?sc = 0"
  proof -
    from that have "ds * ?hc * ?sc = 0" by auto
    then show ?thesis by (simp only: powr_0)
  qed
  have c: "0 \<le> (ds * ?hc * ?sc) powr (1/3) \<and> (ds * ?hc * ?sc) powr (1/3) \<le> 1"
    if "0 \<le> ds" "ds \<le> 1" "?hc \<le> 1" "?sc \<le> 1"
  proof -
    have "ds * ?hc \<le> 1" using that hc0 by (simp add: mult_le_one)
    then have "ds * ?hc * ?sc \<le> 1" using that sc0 hc0 by (simp add: mult_le_one)
    moreover have "0 \<le> ds * ?hc * ?sc" using that hc0 sc0 by simp
    ultimately show ?thesis by (simp add: powr_le1)
  qed
  let ?ri = "(ds * ?hc * ?sc) powr (1/3)"
  have "(0 \<le> ds \<longrightarrow> ?ri = root 3 (ds * ?hc * ?sc))
          \<and> (ds = 0 \<or> ?hc = 0 \<or> ?sc = 0 \<longrightarrow> ?ri = 0)
          \<and> (0 \<le> ds \<and> ds \<le> 1 \<and> 0 \<le> ?hc \<and> ?hc \<le> 1 \<and> 0 \<le> ?sc \<and> ?sc \<le> 1 \<longrightarrow> 0 \<le> ?ri \<and> ?ri \<le> 1)"
    using a b c by blast
  with ds hc ri show ?thesis unfolding Let_def by blast
qed

theorem representation_index_formula_witness:
  "statistical_validation (ks_const 0) (cdf_const (1 - 0)) [''1abcA00'', ''2xyzA00'']
       [''1abcA00'', ''2xyzA00''] df0 cath0 = Inr (vr_plain_first 0)
   \<and> map_of (vr_plain_first 0) ''distribution_similarity'' = Some 0
   \<and> map_of (vr_plain_first 0) ''hierarchy_coverage'' = Some 1
   \<and> dict_get (vr_plain_first 0) ''stability_coverage'' 1 = 1
   \<and> map_of (vr_plain_first 0) ''representation_index'' = Some (root 3 (0 * 1 * 1))
   \<and> map_of (vr_plain_first 0) ''representation_index'' = Some 0"
  using representation_index_formula[OF ex_plain_first[of 0]] ex_plain_first[of 0]
  by (simp add: vr_plain_first_def dict_get_def)

text \<open>
  C10. On every result of the validator that holds a stability coverage, the standalone
  helper \<^verbatim>\<open>calculate_representation_index\<close> returns the index stored in that result.
\<close>

theorem helper_agrees_with_stored_index:
  assumes "statistical_validation ks cdf holdout alls df cath = Inr vr"
      and "map_of vr ''stability_coverage'' \<noteq> None"
  shows "map_of vr ''representation_index'' = Some (calculate_representation_index vr)"
proof -
  from validation_result_shape[OF assms(1)] obtain vr0 where
    vr: "vr = index_step (hierarchy_coverage_of (cath_of cath holdout) (cath_of cath alls)) vr0" by blast
  let ?hc = "hierarchy_coverage_of (cath_of cath holdout) (cath_of cath alls)"
  from index_step_lookup[of ?hc vr0] vr obtain ds where
    ds: "map_of vr ''distribution_similarity'' = Some ds" and
    hc: "map_of vr ''hierarchy_coverage'' = Some ?hc" and
    ri: "map_of vr ''representation_index'' =
           Some ((ds * ?hc * dict_get vr ''stability_coverage'' 1) powr (1/3))" by auto
  from assms(2) obtain s where s: "map_of vr ''stability_coverage'' = Some s" by auto
  show ?thesis
    by (simp add: ri calculate_representation_index_def dict_get_def ds hc s)
qed

theorem helper_agrees_with_stored_index_witness:
  "statistical_validation (ks_const 1) (cdf_const (1 - 1)) [''2xyzA00'', ''1abcA00'']
       [''1abcA00'', ''2xyzA00''] df0 cath0 = Inr (vr_rmsf_first 1)
   \<and> map_of (vr_rmsf_first 1) ''stability_coverage'' \<noteq> None
   \<and> map_of (vr_rmsf_first 1) ''representation_index'' = Some (calculate_representation_index (vr_rmsf_first 1))"
proof -
  have sc: "map_of (vr_rmsf_first 1) ''stability_coverage'' \<noteq> None"
    by (simp add: vr_rmsf_first_def)
  show ?thesis
    using helper_agrees_with_stored_index[OF ex_rmsf_first[of 1] sc] ex_rmsf_first[of 1] sc
    by simp
qed

section \<open>Properties of the double arithmetic and of set iteration\<close>

lemma pow2_pos: "0 < pow2 e"
  by (simp add: pow2_def)

lemma pow2_powr: "pow2 e = 2 powr (of_int e)"
  by (simp add: pow2_def powr_real_of_int field_simps)

lemma double_exponent_eq:
  assumes "pow2 e \<le> \<bar>x\<bar>" "\<bar>x\<bar> < pow2 (e + 1)" "- 1022 \<le> e"
  shows "double_exponent x = e"
proof -
  have pos: "0 < \<bar>x\<bar>" using assms(1) pow2_pos[of e] by linarith
  have "\<lfloor>log 2 \<bar>x\<bar>\<rfloor> = e"
    using assms(1,2) pos by (simp add: floor_log_eq_powr_iff pow2_powr)
  with assms(3) show ?thesis by (simp add: double_exponent_def)
qed

text \<open>Rounding a real whose binary exponent is known.\<close>

lemma round_double_eval:
  assumes "pow2 e \<le> \<bar>x\<bar>" "\<bar>x\<bar> < pow2 (e + 1)" "- 1022 \<le> e"
  shows "round_double x = of_int (round_half_even (x / pow2 (e - 52))) * pow2 (e - 52)"
proof -
  have "0 < \<bar>x\<bar>" using assms(1) pow2_pos[of e] by linarith
  then have "x \<noteq> 0" by simp
  then show ?thesis by (simp add: round_double_def Let_def double_exponent_eq[OF assms])
qed

lemma max_one_py_int: "max 1 (py_int x) = max 1 \<lfloor>x\<rfloor>"
proof (cases "0 \<le> x")
  case True
  then show ?thesis by (simp add: py_int_def)
next
  case False
  then have "\<lceil>x\<rceil> \<le> 0" "\<lfloor>x\<rfloor> \<le> 0" by (simp_all add: ceiling_le_iff floor_le_iff) 
  with False show ?thesis by (simp add: py_int_def)
qed

text \<open>The literal \<^verbatim>\<open>0.1\<close> and the ratios of main.py, lines 43 and 63, as the doubles they are:
  0.1, 0.11000000000000001, 0.12, 0.13, 0.13999999999999999, 0.15000000000000002.\<close>

lemma double_tenth_value: "double_tenth = 3602879701896397 / 36028797018963968"
  unfolding double_tenth_def
  using round_double_eval[of "-4" "1/10"]
  by (simp add: pow2_def round_half_even_def Let_def)

lemma ratio_step_a1: "double_mul (3602879701896397 / 36028797018963968) 1 = 3602879701896397 / 36028797018963968"
  unfolding double_mul_def
  using round_double_eval[of "-4" "(3602879701896397 / 36028797018963968) * 1"]
  by (simp add: pow2_def round_half_even_def Let_def)

lemma ratio_step_b1: "double_add 1 (3602879701896397 / 36028797018963968) = 2476979795053773 / 2251799813685248"
  unfolding double_add_def
  using round_double_eval[of "0" "1 + (3602879701896397 / 36028797018963968)"]
  by (simp add: pow2_def round_half_even_def Let_def)

lemma ratio_step_c1: "double_mul (3602879701896397 / 36028797018963968) (2476979795053773 / 2251799813685248) = 3963167672086037 / 36028797018963968"
  unfolding double_mul_def
  using round_double_eval[of "-4" "(3602879701896397 / 36028797018963968) * (2476979795053773 / 2251799813685248)"]
  by (simp add: pow2_def round_half_even_def Let_def)

lemma ratio_1: "double_mul double_tenth (double_add 1 (double_mul double_tenth (real (1::nat)))) = 3963167672086037 / 36028797018963968"
  by (simp add: double_tenth_value ratio_step_a1 ratio_step_b1 ratio_step_c1)

lemma ratio_step_a2: "double_mul (3602879701896397 / 36028797018963968) 2 = 3602879701896397 / 18014398509481984"
  unfolding double_mul_def
  using round_double_eval[of "-3" "(3602879701896397 / 36028797018963968) * 2"]
  by (simp add: pow2_def round_half_even_def Let_def)

lemma ratio_step_b2: "double_add 1 (3602879701896397 / 18014398509481984) = 5404319552844595 / 4503599627370496"
  unfolding double_add_def
  using round_double_eval[of "0" "1 + (3602879701896397 / 18014398509481984)"]
  by (simp add: pow2_def round_half_even_def Let_def)

lemma ratio_step_c2: "double_mul (3602879701896397 / 36028797018963968) (5404319552844595 / 4503599627370496) = 1080863910568919 / 9007199254740992"
  unfolding double_mul_def
  using round_double_eval[of "-4" "(3602879701896397 / 36028797018963968) * (5404319552844595 / 4503599627370496)"]
  by (simp add: pow2_def round_half_even_def Let_def)

lemma ratio_2: "double_mul double_tenth (double_add 1 (double_mul double_tenth (real (2::nat)))) = 1080863910568919 / 9007199254740992"
  by (simp add: double_tenth_value ratio_step_a2 ratio_step_b2 ratio_step_c2)

lemma ratio_step_a3: "double_mul (3602879701896397 / 36028797018963968) 3 = 1351079888211149 / 4503599627370496"
  unfolding double_mul_def
  using round_double_eval[of "-2" "(3602879701896397 / 36028797018963968) * 3"]
  by (simp add: pow2_def round_half_even_def Let_def)

lemma ratio_step_b3: "double_add 1 (1351079888211149 / 4503599627370496) = 5854679515581645 / 4503599627370496"
  unfolding double_add_def
  using round_double_eval[of "0" "1 + (1351079888211149 / 4503599627370496)"]
  by (simp add: pow2_def round_half_even_def Let_def)

lemma ratio_step_c3: "double_mul (3602879701896397 / 36028797018963968) (5854679515581645 / 4503599627370496) = 1170935903116329 / 9007199254740992"
  unfolding double_mul_def
  using round_double_eval[of "-3" "(3602879701896397 / 36028797018963968) * (5854679515581645 / 4503599627370496)"]
  by (simp add: pow2_def round_half_even_def Let_def)

lemma ratio_3: "double_mul double_tenth (double_add 1 (double_mul double_tenth (real (3::nat)))) = 1170935903116329 / 9007199254740992"
  by (simp add: double_tenth_value ratio_step_a3 ratio_step_b3 ratio_step_c3)

lemma ratio_step_a4: "double_mul (3602879701896397 / 36028797018963968) 4 = 3602879701896397 / 9007199254740992"
  unfolding double_mul_def
  using round_double_eval[of "-2" "(3602879701896397 / 36028797018963968) * 4"]
  by (simp add: pow2_def round_half_even_def Let_def)

lemma ratio_step_b4: "double_add 1 (3602879701896397 / 9007199254740992) = 3152519739159347 / 2251799813685248"
  unfolding double_add_def
  using round_double_eval[of "0" "1 + (3602879701896397 / 9007199254740992)"]
  by (simp add: pow2_def round_half_even_def Let_def)

lemma ratio_step_c4: "double_mul (3602879701896397 / 36028797018963968) (3152519739159347 / 2251799813685248) = 5044031582654955 / 36028797018963968"
  unfolding double_mul_def
  using round_double_eval[of "-3" "(3602879701896397 / 36028797018963968) * (3152519739159347 / 2251799813685248)"]
  by (simp add: pow2_def round_half_even_def Let_def)

lemma ratio_4: "double_mul double_tenth (double_add 1 (double_mul double_tenth (real (4::nat)))) = 5044031582654955 / 36028797018963968"
  by (simp add: double_tenth_value ratio_step_a4 ratio_step_b4 ratio_step_c4)

lemma ratio_step_a5: "double_mul (3602879701896397 / 36028797018963968) 5 = 1 / 2"
  unfolding double_mul_def
  using round_double_eval[of "-1" "(3602879701896397 / 36028797018963968) * 5"]
  by (simp add: pow2_def round_half_even_def Let_def)

lemma ratio_step_b5: "double_add 1 (1 / 2) = 3 / 2"
  unfolding double_add_def
  using round_double_eval[of "0" "1 + (1 / 2)"]
  by (simp add: pow2_def round_half_even_def Let_def)

lemma ratio_step_c5: "double_mul (3602879701896397 / 36028797018963968) (3 / 2) = 1351079888211149 / 9007199254740992"
  unfolding double_mul_def
  using round_double_eval[of "-3" "(3602879701896397 / 36028797018963968) * (3 / 2)"]
  by (simp add: pow2_def round_half_even_def Let_def)

lemma ratio_5: "double_mul double_tenth (double_add 1 (double_mul double_tenth (real (5::nat)))) = 1351079888211149 / 9007199254740992"
  by (simp add: double_tenth_value ratio_step_a5 ratio_step_b5 ratio_step_c5)

lemma double_add_one_zero: "double_add 1 0 = 1"
  unfolding double_add_def
  using round_double_eval[of "0" "1"]
  by (simp add: pow2_def round_half_even_def Let_def)

lemma double_mul_zero: "double_mul a 0 = 0"
  by (simp add: double_mul_def round_double_def)

lemma double_tenth_times_one: "double_mul (3602879701896397 / 36028797018963968) 1 = 3602879701896397 / 36028797018963968"
  unfolding double_mul_def
  using round_double_eval[of "-4" "(3602879701896397 / 36028797018963968) * 1"]
  by (simp add: pow2_def round_half_even_def Let_def)

lemma ratio_0: "double_mul double_tenth (double_add 1 (double_mul double_tenth (real (0::nat)))) = double_tenth"
  by (simp add: double_mul_zero double_add_one_zero double_tenth_times_one double_tenth_value)

lemma one_times_ratio_1: "double_mul 1 (3963167672086037 / 36028797018963968) = 3963167672086037 / 36028797018963968"
  unfolding double_mul_def
  using round_double_eval[of "-4" "1 * (3963167672086037 / 36028797018963968)"]
  by (simp add: pow2_def round_half_even_def Let_def)

lemma one_times_ratio_2: "double_mul 1 (1080863910568919 / 9007199254740992) = 1080863910568919 / 9007199254740992"
  unfolding double_mul_def
  using round_double_eval[of "-4" "1 * (1080863910568919 / 9007199254740992)"]
  by (simp add: pow2_def round_half_even_def Let_def)

lemma one_times_ratio_3: "double_mul 1 (1170935903116329 / 9007199254740992) = 1170935903116329 / 9007199254740992"
  unfolding double_mul_def
  using round_double_eval[of "-3" "1 * (1170935903116329 / 9007199254740992)"]
  by (simp add: pow2_def round_half_even_def Let_def)

lemma one_times_ratio_4: "double_mul 1 (5044031582654955 / 36028797018963968) = 5044031582654955 / 36028797018963968"
  unfolding double_mul_def
  using round_double_eval[of "-3" "1 * (5044031582654955 / 36028797018963968)"]
  by (simp add: pow2_def round_half_even_def Let_def)

lemma one_times_ratio_5: "double_mul 1 (1351079888211149 / 9007199254740992) = 1351079888211149 / 9007199254740992"
  unfolding double_mul_def
  using round_double_eval[of "-3" "1 * (1351079888211149 / 9007199254740992)"]
  by (simp add: pow2_def round_half_even_def Let_def)

lemma one_times_tenth: "double_mul 1 (3602879701896397 / 36028797018963968) = 3602879701896397 / 36028797018963968"
  unfolding double_mul_def
  using round_double_eval[of "-4" "1 * (3602879701896397 / 36028797018963968)"]
  by (simp add: pow2_def round_half_even_def Let_def)

lemma ten_times_tenth: "double_mul 10 (3602879701896397 / 36028797018963968) = 1"
  unfolding double_mul_def
  using round_double_eval[of "0" "10 * (3602879701896397 / 36028797018963968)"]
  by (simp add: pow2_def round_half_even_def Let_def)

lemma ten_times_ratio_5: "double_mul 10 (1351079888211149 / 9007199254740992) = 6755399441055745 / 4503599627370496"
  unfolding double_mul_def
  using round_double_eval[of "0" "10 * (1351079888211149 / 9007199254740992)"]
  by (simp add: pow2_def round_half_even_def Let_def)

lemma twenty_times_ratio_5: "double_mul 20 (1351079888211149 / 9007199254740992) = 6755399441055745 / 2251799813685248"
  unfolding double_mul_def
  using round_double_eval[of "1" "20 * (1351079888211149 / 9007199254740992)"]
  by (simp add: pow2_def round_half_even_def Let_def)

lemma fifty_times_ratio_4: "double_mul 50 (5044031582654955 / 36028797018963968) = 7881299347898367 / 1125899906842624"
  unfolding double_mul_def
  using round_double_eval[of "2" "50 * (5044031582654955 / 36028797018963968)"]
  by (simp add: pow2_def round_half_even_def Let_def)

lemma fifteen_times_tenth: "double_mul 15 (3602879701896397 / 36028797018963968) = 3 / 2"
  unfolding double_mul_def
  using round_double_eval[of "0" "15 * (3602879701896397 / 36028797018963968)"]
  by (simp add: pow2_def round_half_even_def Let_def)

lemma two_times_tenth: "double_mul 2 (3602879701896397 / 36028797018963968) = 3602879701896397 / 18014398509481984"
  unfolding double_mul_def
  using round_double_eval[of "-3" "2 * (3602879701896397 / 36028797018963968)"]
  by (simp add: pow2_def round_half_even_def Let_def)

lemma three_times_tenth: "double_mul 3 (3602879701896397 / 36028797018963968) = 1351079888211149 / 4503599627370496"
  unfolding double_mul_def
  using round_double_eval[of "-2" "3 * (3602879701896397 / 36028797018963968)"]
  by (simp add: pow2_def round_half_even_def Let_def)

lemma three_times_half: "double_mul 3 (1 / 2) = 3 / 2"
  unfolding double_mul_def
  using round_double_eval[of "0" "3 * (1 / 2)"]
  by (simp add: pow2_def round_half_even_def Let_def)

section \<open>Properties of the homology filter\<close>

subsection \<open>Draws and grouping\<close>

lemma set_uniq: "set (uniq xs) = set xs"
  by (induction xs) auto

lemma distinct_uniq: "distinct (uniq xs)"
  by (induction xs) (auto simp: set_uniq)

lemma draw_simps: "fst (draw g) = g 0"
  by (simp add: draw_def)

lemma choice_no_replace_props:
  "choice_no_replace g xs k = (ys, g') \<Longrightarrow> k \<le> length xs \<Longrightarrow>
     length ys = k \<and> set ys \<subseteq> set xs \<and> (distinct xs \<longrightarrow> distinct ys)"
proof (induction k arbitrary: g xs ys g')
  case 0
  then show ?case by simp
next
  case (Suc k)
  obtain n g1 where d: "draw g = (n, g1)" by (cases "draw g")
  let ?i = "n mod length xs"
  let ?rest = "take ?i xs @ drop (Suc ?i) xs"
  obtain zs g2 where r: "choice_no_replace g1 ?rest k = (zs, g2)"
    by (cases "choice_no_replace g1 ?rest k")
  from Suc.prems(2) have pos: "0 < length xs" by (cases xs) auto
  then have i: "?i < length xs" by simp
  from Suc.prems(1) d r have ys: "ys = xs ! ?i # zs" by (simp add: Let_def)
  have len: "length ?rest = length xs - 1" using i by simp
  with Suc.prems(2) have "k \<le> length ?rest" by simp
  from Suc.IH[OF r this] have ih: "length zs = k" "set zs \<subseteq> set ?rest" "distinct ?rest \<longrightarrow> distinct zs"
    by auto
  have sub: "set ?rest \<subseteq> set xs"
    using set_take_subset[of ?i xs] set_drop_subset[of "Suc ?i" xs] by auto
  have xs_split: "xs = take ?i xs @ xs ! ?i # drop (Suc ?i) xs"
    using i by (simp add: id_take_nth_drop)
  have dist: "distinct ?rest \<and> xs ! ?i \<notin> set ?rest" if "distinct xs"
  proof -
    from that xs_split have "distinct (take ?i xs @ xs ! ?i # drop (Suc ?i) xs)" by simp
    then show ?thesis by auto
  qed
  show ?case using ys ih sub i dist by auto
qed

lemma np_choice_k_props:
  assumes "np_choice_k g xs k = Inr (ys, g')"
  shows "length ys = k \<and> set ys \<subseteq> set xs \<and> (distinct xs \<longrightarrow> distinct ys)"
proof -
  from assms have "k \<le> length xs" "choice_no_replace g xs k = (ys, g')"
    by (auto simp: np_choice_k_def split: if_splits)
  then show ?thesis using choice_no_replace_props by blast
qed

lemma choice_no_replace_all:
  "choice_no_replace g xs (length xs) = (ys, g') \<Longrightarrow> set ys = set xs"
proof (induction "length xs" arbitrary: g xs ys g')
  case 0
  then show ?case by simp
next
  case (Suc k)
  obtain n g1 where d: "draw g = (n, g1)" by (cases "draw g")
  let ?i = "n mod length xs"
  let ?rest = "take ?i xs @ drop (Suc ?i) xs"
  from Suc(2) have "xs \<noteq> []" by auto
  then have i: "?i < length xs" by simp
  then have len: "length ?rest = k" using Suc(2) by simp
  obtain zs g2 where r: "choice_no_replace g1 ?rest (length ?rest) = (zs, g2)"
    by (cases "choice_no_replace g1 ?rest (length ?rest)")
  from Suc(3) Suc(2)[symmetric] d r len have ys: "ys = xs ! ?i # zs" by (simp add: Let_def)
  from Suc(1)[OF len[symmetric] r] have "set zs = set ?rest" .
  moreover have "xs = take ?i xs @ xs ! ?i # drop (Suc ?i) xs"
    using i by (simp add: id_take_nth_drop)
  then have "set xs = insert (xs ! ?i) (set ?rest)"
    by (metis Un_insert_right list.simps(15) set_append)
  ultimately show ?case using ys by simp
qed

lemma set_py_set_iter: "set (py_set_iter order xs) = set xs"
  unfolding py_set_iter_def
  using choice_no_replace_all[of "order xs" xs] by (cases "choice_no_replace (order xs) xs (length xs)") simp

lemma zero_rng_shift: "(\<lambda>i. zero_rng (Suc i)) = zero_rng"
  by (simp add: zero_rng_def)

lemma draw_zero: "draw zero_rng = (0, zero_rng)"
  by (simp add: draw_def zero_rng_shift) (simp add: zero_rng_def)

lemma choice_zero_all: "choice_no_replace zero_rng xs (length xs) = (xs, zero_rng)"
  by (induction xs) (simp_all add: draw_zero)

lemma py_set_iter_insertion: "py_set_iter insertion_order xs = xs"
  by (simp add: py_set_iter_def insertion_order_def choice_zero_all)

lemma np_choice_mem: "xs \<noteq> [] \<Longrightarrow> np_choice g xs = (x, g') \<Longrightarrow> x \<in> set xs"
  by (auto simp: np_choice_def draw_def)

lemma group_by_key_mem:
  "(k, ys) \<in> set (group_by_key f xs) \<Longrightarrow> set ys \<subseteq> set xs \<and> ys \<noteq> [] \<and> (\<forall>y\<in>set ys. f y = k)"
  by (auto simp: group_by_key_def set_uniq filter_empty_conv)

lemma group_by_key_distinct:
  assumes "distinct (map h xs)"
  shows "distinct (concat (map (\<lambda>(k, ys). map h ys) (group_by_key f xs)))"
proof -
  have d: "distinct (concat (map (\<lambda>k. map h (filter (\<lambda>x. f x = k) xs)) ks))" if "distinct ks" for ks
    using that
  proof (induction ks)
    case Nil then show ?case by simp
  next
    case (Cons k ks)
    have "distinct (map h (filter (\<lambda>x. f x = k) xs))"
      using assms by (simp add: distinct_map_filter)
    moreover have "h x \<noteq> h y" if "x \<in> set xs" "f x = k" "y \<in> set xs" "f y \<in> set ks" for x y
    proof
      assume "h x = h y"
      with assms that have "x = y" by (auto simp: distinct_map inj_on_def)
      with that Cons.prems show False by auto
    qed
    ultimately show ?case using Cons by auto
  qed
  have "map (\<lambda>(k, ys). map h ys) (group_by_key f xs) = map (\<lambda>k. map h (filter (\<lambda>x. f x = k) xs)) (uniq (map f xs))"
    by (simp add: group_by_key_def)
  then show ?thesis using d[OF distinct_uniq] by simp
qed

subsection \<open>Edges and components\<close>

lemma linked_sym: "linked cath a b = linked cath b a"
  by (auto simp: linked_def)

lemma linked_iff:
  "linked cath a b \<longleftrightarrow> take 4 a = take 4 b \<or> (\<exists>c. cath a = Some c \<and> cath b = Some c)"
  by (auto simp: linked_def)

lemma build_edges_adjacent:
  "a \<in> set ds \<Longrightarrow> b \<in> set ds \<Longrightarrow> a \<noteq> b \<Longrightarrow> linked cath a b \<Longrightarrow> adjacent (build_edges cath ds) a b"
proof (induction ds)
  case Nil then show ?case by simp
next
  case (Cons d ds)
  show ?case
  proof (cases "a = d")
    case True
    with Cons.prems have "b \<in> set ds" by auto
    with True Cons.prems(4) show ?thesis by (auto simp: adjacent_def)
  next
    case False
    note ad = this
    show ?thesis
    proof (cases "b = d")
      case True
      with Cons.prems ad have "a \<in> set ds" by auto
      moreover from Cons.prems(4) have "linked cath b a" by (simp add: linked_sym)
      ultimately show ?thesis using True by (auto simp: adjacent_def)
    next
      case False
      with ad Cons.prems have "a \<in> set ds" "b \<in> set ds" by auto
      from Cons.IH[OF this Cons.prems(3,4)] show ?thesis by (auto simp: adjacent_def)
    qed
  qed
qed

lemma grow_superset: "set seen \<subseteq> set (grow es nodes seen)"
proof (induction es nodes seen rule: grow.induct)
  case (1 es nodes seen)
  let ?new = "filter (\<lambda>u. u \<notin> set seen \<and> list_ex (\<lambda>v. adjacent es v u) seen) nodes"
  show ?case
  proof (cases "?new = []")
    case True
    then show ?thesis by (subst grow.simps) (simp add: Let_def)
  next
    case False
    from 1[OF refl False] have "set (seen @ ?new) \<subseteq> set (grow es nodes (seen @ ?new))" .
    moreover have "grow es nodes seen = grow es nodes (seen @ ?new)"
      using False by (subst grow.simps) (simp add: Let_def)
    ultimately show ?thesis by auto
  qed
qed

lemma grow_subset: "set (grow es nodes seen) \<subseteq> set seen \<union> set nodes"
proof (induction es nodes seen rule: grow.induct)
  case (1 es nodes seen)
  let ?new = "filter (\<lambda>u. u \<notin> set seen \<and> list_ex (\<lambda>v. adjacent es v u) seen) nodes"
  show ?case
  proof (cases "?new = []")
    case True
    then show ?thesis by (subst grow.simps) (simp add: Let_def)
  next
    case False
    from 1[OF refl False] have "set (grow es nodes (seen @ ?new)) \<subseteq> set (seen @ ?new) \<union> set nodes" .
    moreover have "grow es nodes seen = grow es nodes (seen @ ?new)"
      using False by (subst grow.simps) (simp add: Let_def)
    ultimately show ?thesis by auto
  qed
qed

lemma grow_closed:
  "u \<in> set (grow es nodes seen) \<Longrightarrow> v \<in> set nodes \<Longrightarrow> adjacent es u v \<Longrightarrow> v \<in> set (grow es nodes seen)"
proof (induction es nodes seen rule: grow.induct)
  case (1 es nodes seen)
  let ?new = "filter (\<lambda>u. u \<notin> set seen \<and> list_ex (\<lambda>v. adjacent es v u) seen) nodes"
  show ?case
  proof (cases "?new = []")
    case True
    then have eq: "grow es nodes seen = seen" by (subst grow.simps) (simp add: Let_def)
    with "1.prems" have u: "u \<in> set seen" by simp
    have "v \<in> set seen"
    proof (rule ccontr)
      assume "v \<notin> set seen"
      with u "1.prems" have "v \<in> set ?new" by (auto simp: list_ex_iff)
      with True show False by simp
    qed
    with eq show ?thesis by simp
  next
    case False
    have eq: "grow es nodes seen = grow es nodes (seen @ ?new)"
      using False by (subst grow.simps) (simp add: Let_def)
    from 1(1)[OF refl False] "1.prems" eq show ?thesis by simp
  qed
qed

text \<open>A grown component holds nothing but what its seed reaches along edges.\<close>

lemma grow_reachable:
  "u \<in> set (grow es nodes seen) \<Longrightarrow>
     \<exists>s\<in>set seen. (s, u) \<in> {(a, b). adjacent es a b \<and> b \<in> set nodes}\<^sup>*"
proof (induction es nodes seen rule: grow.induct)
  case (1 es nodes seen)
  let ?new = "filter (\<lambda>u. u \<notin> set seen \<and> list_ex (\<lambda>v. adjacent es v u) seen) nodes"
  let ?R = "{(a, b). adjacent es a b \<and> b \<in> set nodes}"
  show ?case
  proof (cases "?new = []")
    case True
    then have "grow es nodes seen = seen" by (subst grow.simps) (simp add: Let_def)
    with "1.prems" show ?thesis by auto
  next
    case False
    have eq: "grow es nodes seen = grow es nodes (seen @ ?new)"
      using False by (subst grow.simps) (simp add: Let_def)
    from 1(1)[OF refl False] "1.prems" eq obtain s where
      s: "s \<in> set (seen @ ?new)" "(s, u) \<in> ?R\<^sup>*" by auto
    show ?thesis
    proof (cases "s \<in> set seen")
      case True
      with s show ?thesis by blast
    next
      case False
      with s(1) obtain v where "v \<in> set seen" "adjacent es v s" "s \<in> set nodes"
        by (auto simp: list_ex_iff)
      then have "(v, s) \<in> ?R" by simp
      from this s(2) have "(v, u) \<in> ?R\<^sup>*" by (rule converse_rtrancl_into_rtrancl)
      with \<open>v \<in> set seen\<close> show ?thesis by blast
    qed
  qed
qed

lemma components_from_grow:
  "c \<in> set (components_from es nodes vs seen) \<Longrightarrow> \<exists>v\<in>set vs. c = grow es nodes [v]"
  by (induction vs arbitrary: seen) (auto simp: Let_def split: if_splits)

lemma component_props:
  assumes "c \<in> set (connected_components es nodes)"
  shows "set c \<subseteq> set nodes"
    and "u \<in> set c \<Longrightarrow> v \<in> set nodes \<Longrightarrow> adjacent es u v \<Longrightarrow> v \<in> set c"
proof -
  from assms obtain w where w: "w \<in> set nodes" "c = grow es nodes [w]"
    unfolding connected_components_def by (blast dest: components_from_grow)
  show "set c \<subseteq> set nodes" using grow_subset[of es nodes "[w]"] w by auto
  show "u \<in> set c \<Longrightarrow> v \<in> set nodes \<Longrightarrow> adjacent es u v \<Longrightarrow> v \<in> set c"
    using w grow_closed by blast
qed

lemma sorted_component_props:
  assumes "c \<in> set (sorted_components_of cath cands)"
  shows "set c \<subseteq> set cands"
    and "u \<in> set c \<Longrightarrow> v \<in> set cands \<Longrightarrow> u \<noteq> v \<Longrightarrow> linked cath u v \<Longrightarrow> v \<in> set c"
proof -
  from assms have c: "c \<in> set (connected_components (build_edges cath cands) (uniq cands))"
    by (simp add: sorted_components_of_def)
  show sub: "set c \<subseteq> set cands" using component_props(1)[OF c] by (simp add: set_uniq)
  show "u \<in> set c \<Longrightarrow> v \<in> set cands \<Longrightarrow> u \<noteq> v \<Longrightarrow> linked cath u v \<Longrightarrow> v \<in> set c"
    using component_props(2)[OF c, of u v] sub build_edges_adjacent[of u cands v cath]
    by (auto simp: set_uniq)
qed

subsection \<open>Buckets and the filter's output\<close>

lemma stability_buckets_indices:
  assumes "(cls, comps) \<in> set (stability_buckets order df sc)" "p \<in> set comps"
  shows "fst p < length sc \<and> snd p = sc ! fst p"
proof -
  from assms have "p \<in> set (zip [0..<length sc] sc)"
    unfolding stability_buckets_def by (auto dest: group_by_key_mem)
  then obtain i where "p = ([0..<length sc] ! i, sc ! i)" "i < length sc"
    by (auto simp: set_zip)
  then show ?thesis by simp
qed

lemma sample_buckets_indices:
  "sample_buckets r g buckets = Inr (idxs, g') \<Longrightarrow>
     set idxs \<subseteq> (\<Union>(cls, comps)\<in>set buckets. fst ` set comps)"
proof (induction buckets arbitrary: g idxs g')
  case Nil then show ?case by simp
next
  case (Cons b buckets)
  obtain cls comps where b: "b = (cls, comps)" by (cases b)
  from Cons.prems b obtain sel g1 more where
    sel: "np_choice_k g [0..<length comps] (sample_size (length comps) r) = Inr (sel, g1)" and
    more: "sample_buckets r g1 buckets = Inr (more, g')" and
    idxs: "idxs = map (\<lambda>idx. fst (comps ! idx)) sel @ more"
    by (auto simp: ebind_Inr Let_def)
  from np_choice_k_props[OF sel] have "set sel \<subseteq> {0..<length comps}" by auto
  then have "set (map (\<lambda>idx. fst (comps ! idx)) sel) \<subseteq> fst ` set comps" by auto
  with Cons.IH[OF more] idxs b show ?case by auto
qed


lemma sample_buckets_counts:
  assumes "sample_buckets r g buckets = Inr (idxs, g')"
      and "distinct (concat (map (\<lambda>(k, comps). map fst comps) buckets))"
  shows "distinct idxs \<and>
         (\<forall>(cls, comps)\<in>set buckets. length (filter (\<lambda>i. i \<in> fst ` set comps) idxs) = sample_size (length comps) r)"
  using assms
proof (induction buckets arbitrary: g idxs g')
  case Nil then show ?case by simp
next
  case (Cons b buckets)
  obtain cls comps where b: "b = (cls, comps)" by (cases b)
  from Cons.prems(1) b obtain sel g1 more where
    sel: "np_choice_k g [0..<length comps] (sample_size (length comps) r) = Inr (sel, g1)" and
    more: "sample_buckets r g1 buckets = Inr (more, g')" and
    idxs: "idxs = map (\<lambda>idx. fst (comps ! idx)) sel @ more"
    by (auto simp: ebind_Inr Let_def)
  let ?first = "map (\<lambda>idx. fst (comps ! idx)) sel"
  from Cons.prems(2) b have dc: "distinct (map fst comps)"
    and dr: "distinct (concat (map (\<lambda>(k, comps). map fst comps) buckets))"
    and disj: "fst ` set comps \<inter> (\<Union>(k, cs)\<in>set buckets. fst ` set cs) = {}"
    by auto
  from np_choice_k_props[OF sel] have sl: "length sel = sample_size (length comps) r"
    and ss: "set sel \<subseteq> {0..<length comps}" and sd: "distinct sel" by auto
  have first_in: "set ?first \<subseteq> fst ` set comps" using ss by auto
  have first_d: "distinct ?first"
  proof -
    have "inj_on (\<lambda>idx. fst (comps ! idx)) (set sel)"
    proof (rule inj_onI)
      fix i j assume "i \<in> set sel" "j \<in> set sel" "fst (comps ! i) = fst (comps ! j)"
      with ss have ij: "i < length comps" "j < length comps" by auto
      with \<open>fst (comps ! i) = fst (comps ! j)\<close> have "map fst comps ! i = map fst comps ! j" by simp
      with dc ij show "i = j" using nth_eq_iff_index_eq[of "map fst comps" i j] by simp
    qed
    with sd show ?thesis by (simp add: distinct_map)
  qed
  from Cons.IH[OF more dr] have ih_d: "distinct more"
    and ih: "\<forall>(cls, comps)\<in>set buckets. length (filter (\<lambda>i. i \<in> fst ` set comps) more) = sample_size (length comps) r"
    by auto
  have more_in: "set more \<subseteq> (\<Union>(k, cs)\<in>set buckets. fst ` set cs)"
    by (rule sample_buckets_indices[OF more])
  have "set ?first \<inter> set more = {}" using first_in more_in disj by blast
  then have d: "distinct idxs" using idxs first_d ih_d by simp
  have head: "length (filter (\<lambda>i. i \<in> fst ` set comps) idxs) = sample_size (length comps) r"
  proof -
    have "filter (\<lambda>i. i \<in> fst ` set comps) ?first = ?first"
      using first_in by (auto simp: filter_id_conv)
    moreover have "set more \<inter> fst ` set comps = {}" using more_in disj by blast
    then have "filter (\<lambda>i. i \<in> fst ` set comps) more = []"
      by (auto simp: filter_empty_conv)
    ultimately show ?thesis using idxs sl by simp
  qed
  have tail: "length (filter (\<lambda>i. i \<in> fst ` set cs) idxs) = sample_size (length cs) r"
    if "(k, cs) \<in> set buckets" for k cs
  proof -
    from that disj have "fst ` set comps \<inter> fst ` set cs = {}" by auto
    with first_in have "set ?first \<inter> fst ` set cs = {}" by blast
    then have "filter (\<lambda>i. i \<in> fst ` set cs) ?first = []"
      by (auto simp: filter_empty_conv)
    with idxs ih that show ?thesis by auto
  qed
  show ?case using d head tail b by auto
qed

lemma stability_buckets_distinct:
  "distinct (concat (map (\<lambda>(k, comps). map fst comps) (stability_buckets order df sc)))"
  unfolding stability_buckets_def
  by (rule group_by_key_distinct) simp

lemma network_output:
  assumes "network_aware_sampling order g cands df cath r = Inr (out, g')"
  defines "sc \<equiv> sorted_components_of cath cands"
  shows "\<exists>idxs. out = concat (map (\<lambda>idx. py_set_iter order (sc ! idx)) (sort idxs)) \<and> distinct idxs
           \<and> (\<forall>i\<in>set idxs. i < length sc)
           \<and> (\<forall>(cls, comps)\<in>set (stability_buckets order df sc).
                 length (filter (\<lambda>i. i \<in> fst ` set comps) idxs) = sample_size (length comps) r)"
proof -
  from assms obtain idxs g1 where
    sb: "sample_buckets r g (stability_buckets order df sc) = Inr (idxs, g1)" and
    out: "out = concat (map (\<lambda>idx. py_set_iter order (sc ! idx)) (sort idxs))"
    by (auto simp: network_aware_sampling_def Let_def ebind_Inr)
  from sample_buckets_counts[OF sb stability_buckets_distinct]
  have c: "distinct idxs" "\<forall>(cls, comps)\<in>set (stability_buckets order df sc).
                 length (filter (\<lambda>i. i \<in> fst ` set comps) idxs) = sample_size (length comps) r"
    by auto
  have "i < length sc" if "i \<in> set idxs" for i
    using sample_buckets_indices[OF sb] that stability_buckets_indices[of _ _ order df sc] by fastforce
  with out c show ?thesis by blast
qed

lemma network_output_components:
  assumes "network_aware_sampling order g cands df cath r = Inr (out, g')"
  shows "\<exists>cs. set cs \<subseteq> set (sorted_components_of cath cands) \<and> set out = (\<Union>c\<in>set cs. set c)"
proof -
  let ?sc = "sorted_components_of cath cands"
  from network_output[OF assms] obtain idxs where
    out: "out = concat (map (\<lambda>idx. py_set_iter order (?sc ! idx)) (sort idxs))" and v: "\<forall>i\<in>set idxs. i < length ?sc"
    by blast
  from v have "set (map (\<lambda>idx. ?sc ! idx) (sort idxs)) \<subseteq> set ?sc" by auto
  moreover from out have "set out = (\<Union>c\<in>set (map (\<lambda>idx. ?sc ! idx) (sort idxs)). set c)"
    by (simp add: set_py_set_iter)
  ultimately show ?thesis by blast
qed

lemma network_output_subset:
  assumes "network_aware_sampling order g cands df cath r = Inr (out, g')"
  shows "set out \<subseteq> set cands"
proof -
  from network_output_components[OF assms] obtain cs where
    cs: "set cs \<subseteq> set (sorted_components_of cath cands)" "set out = (\<Union>c\<in>set cs. set c)" by blast
  then show ?thesis using sorted_component_props(1)[of _ cath cands] by auto
qed

subsection \<open>The filter on concrete candidates\<close>

lemma grow_unfold:
  "grow es nodes seen =
     (if filter (\<lambda>u. u \<notin> set seen \<and> list_ex (\<lambda>v. adjacent es v u) seen) nodes = [] then seen
      else grow es nodes (seen @ filter (\<lambda>u. u \<notin> set seen \<and> list_ex (\<lambda>v. adjacent es v u) seen) nodes))"
  by (subst grow.simps) (simp add: Let_def)

lemma ex_edges: "build_edges cath0 [''1abcA00'', ''1abcB00'', ''2xyzA00''] = [(''1abcA00'', ''1abcB00'')]"
  by (simp add: linked_def cath0_def)

lemma ex_grow1: "grow [(''1abcA00'', ''1abcB00'')] [''1abcA00'', ''1abcB00'', ''2xyzA00''] [''1abcA00''] = [''1abcA00'', ''1abcB00'']"
  apply (subst grow_unfold)
  apply (simp add: adjacent_def)
  apply (subst grow_unfold)
  apply (simp add: adjacent_def)
  done

lemma ex_grow2: "grow [(''1abcA00'', ''1abcB00'')] [''1abcA00'', ''1abcB00'', ''2xyzA00''] [''2xyzA00''] = [''2xyzA00'']"
  apply (subst grow_unfold)
  apply (simp add: adjacent_def)
  done

lemma ex_nodes: "uniq [''1abcA00'', ''1abcB00'', ''2xyzA00''] = [''1abcA00'', ''1abcB00'', ''2xyzA00'']"
  by simp
lemma ex_cc: "connected_components [(''1abcA00'', ''1abcB00'')] [''1abcA00'', ''1abcB00'', ''2xyzA00'']
   = [[''1abcA00'', ''1abcB00''], [''2xyzA00'']]"
  unfolding connected_components_def
  by (simp add: ex_grow1 ex_grow2)
lemma ex_sort: "sort_key (\<lambda>c. - int (length c)) [[''1abcA00'', ''1abcB00''], [''2xyzA00'']] = [[''1abcA00'', ''1abcB00''], [''2xyzA00'']]"
  by simp
lemma ex_sorted: "sorted_components_of cath0 [''1abcA00'', ''1abcB00'', ''2xyzA00''] = [[''1abcA00'', ''1abcB00''], [''2xyzA00'']]"
  unfolding sorted_components_of_def ex_edges ex_nodes ex_cc by (rule ex_sort)

lemma majority_no_features: "majority_class order no_features c = ''unknown''"
proof -
  have "List.map_filter (\<lambda>d. map_option (\<lambda>f. case stability_class f of None \<Rightarrow> ''unknown'' | Some s \<Rightarrow> s) (no_features d)) xs = []"
    for xs
    by (induction xs) (simp_all add: List.map_filter_simps no_features_def)
  then show ?thesis by (simp add: majority_class_def)
qed

lemma ex_buckets: "stability_buckets order no_features [[''1abcA00'', ''1abcB00''], [''2xyzA00'']]
    = [(''unknown'', [(0, [''1abcA00'', ''1abcB00'']), (1, [''2xyzA00''])])]"
  by (simp add: stability_buckets_def group_by_key_def majority_no_features upt_rec)

lemma choice_one_zero: "xs \<noteq> [] \<Longrightarrow> np_choice_k zero_rng xs 1 = Inr ([xs ! 0], zero_rng)"
  by (cases xs) (simp_all add: np_choice_k_def draw_zero)

lemma ex_sample_size: "sample_size 2 double_tenth = 1" "sample_size 3 (1/2) = 1"
  "sample_size 1 double_tenth = 1" "sample_size 15 double_tenth = 1"
  by (simp_all add: sample_size_def py_int_def double_tenth_value two_times_tenth three_times_half
        one_times_tenth fifteen_times_tenth)

text \<open>Two products at ratios that main.py passes, where the double product and the exact one
  fall on different sides of an integer.\<close>

lemma counts_at_main_ratios:
  "sample_size 50 (double_mul double_tenth (double_add 1 (double_mul double_tenth (real (4::nat))))) = 6"
  "n_clusters_of 20 (double_mul double_tenth (double_add 1 (double_mul double_tenth (real (5::nat))))) = 4"
  unfolding ratio_4 ratio_5
  by (simp_all add: sample_size_def n_clusters_of_def fifty_times_ratio_4 twenty_times_ratio_5 py_int_def)

lemma ex_sample: "sample_buckets double_tenth zero_rng [(''unknown'', [(0, [''1abcA00'', ''1abcB00'']), (1, [''2xyzA00''])])]
    = Inr ([0], zero_rng)"
proof -
  have c: "np_choice_k zero_rng [0..<2] 1 = Inr ([0], zero_rng)"
    using choice_one_zero[of "[0..<2]"] by simp
  have l: "length [(0::nat, [''1abcA00'', ''1abcB00'']), (1, [''2xyzA00''])] = 2" by simp
  show ?thesis
    unfolding sample_buckets.simps Let_def l ex_sample_size c ebind_def
    by simp
qed

lemma ex_network: "network_aware_sampling insertion_order zero_rng [''1abcA00'', ''1abcB00'', ''2xyzA00''] no_features cath0 double_tenth
   = Inr ([''1abcA00'', ''1abcB00''], zero_rng)"
  unfolding network_aware_sampling_def Let_def ex_sorted ex_buckets ex_sample ebind_def
  by (simp add: py_set_iter_insertion)

text \<open>A component whose two members tie, one stable and one without a stability class: the
  set's iteration order decides its bucket, and with it what the filter returns.\<close>

lemma py_set_iter_reverse:
  "py_set_iter reverse_order [''1abcA00'', ''1abcB00''] = [''1abcB00'', ''1abcA00'']"
  "py_set_iter reverse_order [''2xyzA00''] = [''2xyzA00'']"
  by (simp_all add: py_set_iter_def reverse_order_def draw_def)

lemma tie_majority:
  "majority_class insertion_order tie_features [''1abcA00'', ''1abcB00''] = ''stable''"
  "majority_class reverse_order tie_features [''1abcA00'', ''1abcB00''] = ''unknown''"
  "majority_class insertion_order tie_features [''2xyzA00''] = ''unknown''"
  "majority_class reverse_order tie_features [''2xyzA00''] = ''unknown''"
  by (simp_all add: majority_class_def py_set_iter_insertion py_set_iter_reverse List.map_filter_simps
        tie_features_def f_plain_def f_rmsf_def)

lemma tie_buckets:
  "stability_buckets insertion_order tie_features [[''1abcA00'', ''1abcB00''], [''2xyzA00'']]
    = [(''stable'', [(0, [''1abcA00'', ''1abcB00''])]), (''unknown'', [(1, [''2xyzA00''])])]"
  "stability_buckets reverse_order tie_features [[''1abcA00'', ''1abcB00''], [''2xyzA00'']]
    = [(''unknown'', [(0, [''1abcA00'', ''1abcB00'']), (1, [''2xyzA00''])])]"
  by (simp_all add: stability_buckets_def group_by_key_def tie_majority upt_rec)

lemma tie_sample:
  "sample_buckets double_tenth zero_rng
     [(''stable'', [(0, [''1abcA00'', ''1abcB00''])]), (''unknown'', [(1, [''2xyzA00''])])]
    = Inr ([0, 1], zero_rng)"
proof -
  have c: "np_choice_k zero_rng [0..<1] 1 = Inr ([0], zero_rng)"
    using choice_one_zero[of "[0..<1]"] by simp
  have cs: "np_choice_k zero_rng [0] (Suc 0) = Inr ([0], zero_rng)"
    using choice_one_zero[of "[0]"] by simp
  have l: "length [(0::nat, [''1abcA00'', ''1abcB00''])] = 1" "length [(1::nat, [''2xyzA00''])] = 1"
    by simp_all
  show ?thesis
    unfolding sample_buckets.simps Let_def l ex_sample_size c ebind_def
    by (simp add: cs)
qed

lemma tie_network:
  "network_aware_sampling insertion_order zero_rng [''1abcA00'', ''1abcB00'', ''2xyzA00''] tie_features cath0 double_tenth
   = Inr ([''1abcA00'', ''1abcB00'', ''2xyzA00''], zero_rng)"
  "network_aware_sampling reverse_order zero_rng [''1abcA00'', ''1abcB00'', ''2xyzA00''] tie_features cath0 double_tenth
   = Inr ([''1abcB00'', ''1abcA00''], zero_rng)"
  unfolding network_aware_sampling_def Let_def ex_sorted tie_buckets tie_sample ex_sample ebind_def
  by (simp_all add: py_set_iter_insertion py_set_iter_reverse)

lemma ex3_edges: "build_edges no_cath [''1aaaA00'', ''2bbbA00'', ''3cccA00''] = []"
  by (simp add: linked_def no_cath_def)

lemma grow_no_edges: "grow [] nodes seen = seen"
  by (subst grow_unfold) (simp add: adjacent_def list_ex_iff)

lemma ex3_sorted: "sorted_components_of no_cath [''1aaaA00'', ''2bbbA00'', ''3cccA00'']
    = [[''1aaaA00''], [''2bbbA00''], [''3cccA00'']]"
proof -
  have n: "uniq [''1aaaA00'', ''2bbbA00'', ''3cccA00''] = [''1aaaA00'', ''2bbbA00'', ''3cccA00'']" by simp
  have cc: "connected_components [] [''1aaaA00'', ''2bbbA00'', ''3cccA00''] = [[''1aaaA00''], [''2bbbA00''], [''3cccA00'']]"
    unfolding connected_components_def by (simp add: grow_no_edges)
  have s: "sort_key (\<lambda>c. - int (length c)) [[''1aaaA00''], [''2bbbA00''], [''3cccA00'']] = [[''1aaaA00''], [''2bbbA00''], [''3cccA00'']]"
    by simp
  show ?thesis unfolding sorted_components_of_def ex3_edges n cc by (rule s)
qed

lemma ex3_buckets: "stability_buckets order no_features [[''1aaaA00''], [''2bbbA00''], [''3cccA00'']]
    = [(''unknown'', [(0, [''1aaaA00'']), (1, [''2bbbA00'']), (2, [''3cccA00''])])]"
  by (simp add: stability_buckets_def group_by_key_def majority_no_features upt_rec)

lemma ex3_sample: "sample_buckets (1/2) zero_rng [(''unknown'', [(0, [''1aaaA00'']), (1, [''2bbbA00'']), (2, [''3cccA00''])])]
    = Inr ([0], zero_rng)"
proof -
  have c: "np_choice_k zero_rng [0..<3] 1 = Inr ([0], zero_rng)"
    using choice_one_zero[of "[0..<3]"] by simp
  have l: "length [(0::nat, [''1aaaA00'']), (1, [''2bbbA00'']), (2, [''3cccA00''])] = 3" by simp
  show ?thesis
    unfolding sample_buckets.simps Let_def l ex_sample_size c ebind_def
    by simp
qed

lemma ex3_network: "network_aware_sampling insertion_order zero_rng [''1aaaA00'', ''2bbbA00'', ''3cccA00''] no_features no_cath (1/2)
   = Inr ([''1aaaA00''], zero_rng)"
  unfolding network_aware_sampling_def Let_def ex3_sorted ex3_buckets ex3_sample ebind_def
  by (simp add: py_set_iter_insertion)

lemma ex_spec_bucket_size: "spec_bucket_size 3 (1/2) = 2" "spec_bucket_size 15 double_tenth = 2"
  by (simp_all add: spec_bucket_size_def double_tenth_value three_times_half fifteen_times_tenth)

subsection \<open>Claims about the homology filter\<close>

text \<open>
  C2. Homology closure: two domains of the filter's output that share the 4-character prefix
  or have the same full classification lie in one connected component, and that component is
  in the output whole. The filter never splits a component.
\<close>

theorem homology_closure:
  assumes run: "network_aware_sampling order g cands df cath r = Inr (out, g')"
      and d1: "d1 \<in> set out" and d2: "d2 \<in> set out"
      and share: "take 4 d1 = take 4 d2 \<or> (\<exists>code. cath d1 = Some code \<and> cath d2 = Some code)"
  shows "\<exists>c\<in>set (sorted_components_of cath cands). d1 \<in> set c \<and> d2 \<in> set c \<and> set c \<subseteq> set out"
proof -
  from network_output_components[OF run] obtain cs where
    cs: "set cs \<subseteq> set (sorted_components_of cath cands)" "set out = (\<Union>c\<in>set cs. set c)" by blast
  with d1 obtain c where c: "c \<in> set cs" "d1 \<in> set c" by auto
  with cs have comp: "c \<in> set (sorted_components_of cath cands)" and sub: "set c \<subseteq> set out" by auto
  from d2 network_output_subset[OF run] have d2c: "d2 \<in> set cands" by auto
  have "d2 \<in> set c"
  proof (cases "d1 = d2")
    case True with c show ?thesis by simp
  next
    case False
    from share have "linked cath d1 d2" by (simp add: linked_iff)
    from sorted_component_props(2)[OF comp c(2) d2c False this] show ?thesis .
  qed
  with comp c sub show ?thesis by blast
qed

theorem homology_closure_witness:
  "network_aware_sampling insertion_order zero_rng [''1abcA00'', ''1abcB00'', ''2xyzA00''] no_features cath0 double_tenth
     = Inr ([''1abcA00'', ''1abcB00''], zero_rng)
   \<and> ''1abcA00'' \<in> set [''1abcA00'', ''1abcB00''] \<and> ''1abcB00'' \<in> set [''1abcA00'', ''1abcB00'']
   \<and> take 4 ''1abcA00'' = take 4 ''1abcB00''
   \<and> (\<exists>c\<in>set (sorted_components_of cath0 [''1abcA00'', ''1abcB00'', ''2xyzA00'']).
         ''1abcA00'' \<in> set c \<and> ''1abcB00'' \<in> set c \<and> set c \<subseteq> set [''1abcA00'', ''1abcB00''])"
proof -
  have a: "''1abcA00'' \<in> set [''1abcA00'', ''1abcB00'']" and b: "''1abcB00'' \<in> set [''1abcA00'', ''1abcB00'']"
    by simp_all
  have p: "take 4 ''1abcA00'' = take 4 ''1abcB00'' \<or> (\<exists>code. cath0 ''1abcA00'' = Some code \<and> cath0 ''1abcB00'' = Some code)"
    by simp
  from homology_closure[OF ex_network a b p] ex_network show ?thesis by simp
qed

text \<open>
  C4. The number of components drawn from a stability bucket is claimed to be the ceiling of
  bucket size times ratio, at least 1. The code truncates instead: from a bucket of three
  components at ratio 0.5 it draws one, where the ceiling of the product 1.5 is two; and a
  bucket of fifteen at the ratio 0.1 of main.py has the same product, size 1 and ceiling 2.
\<close>

theorem bucket_size_is_floor_not_ceiling:
  "stability_buckets insertion_order no_features
       (sorted_components_of no_cath [''1aaaA00'', ''2bbbA00'', ''3cccA00''])
     = [(''unknown'', [(0, [''1aaaA00'']), (1, [''2bbbA00'']), (2, [''3cccA00''])])]
   \<and> network_aware_sampling insertion_order zero_rng [''1aaaA00'', ''2bbbA00'', ''3cccA00'']
        no_features no_cath (1/2)
     = Inr ([''1aaaA00''], zero_rng)
   \<and> double_mul (real (3::nat)) (1/2) = 3/2
   \<and> nat (max 1 \<lceil>double_mul (real (3::nat)) (1/2)\<rceil>) = 2
   \<and> spec_bucket_size 3 (1/2) = 2
   \<and> sample_size 15 double_tenth = 1 \<and> spec_bucket_size 15 double_tenth = 2"
  by (simp add: ex3_sorted ex3_buckets ex3_network ex_sample_size ex_spec_bucket_size three_times_half)

text \<open>
  C4, as amended: whenever the filter returns, it has drawn from every bucket of the run
  (each is non-empty; a component whose stability classes tie falls into the bucket that the
  iteration order of the Python set gives it) exactly max(1, floor(p)) components, all
  different, where p is the double-precision product of the bucket's size and the ratio; and
  its output is these components, each whole.
\<close>

theorem bucket_sample_counts:
  assumes "network_aware_sampling order g cands df cath r = Inr (out, g')"
  shows "\<exists>idxs. out = concat (map (\<lambda>idx. py_set_iter order (sorted_components_of cath cands ! idx)) (sort idxs))
           \<and> distinct idxs
           \<and> (\<forall>(cls, comps)\<in>set (stability_buckets order df (sorted_components_of cath cands)).
                 comps \<noteq> [] \<and>
                 length (filter (\<lambda>i. i \<in> fst ` set comps) idxs)
                   = nat (max 1 \<lfloor>round_double (real (length comps) * r)\<rfloor>))"
proof -
  from network_output[OF assms] obtain idxs where
    i: "out = concat (map (\<lambda>idx. py_set_iter order (sorted_components_of cath cands ! idx)) (sort idxs))" "distinct idxs"
    and c: "\<forall>(cls, comps)\<in>set (stability_buckets order df (sorted_components_of cath cands)).
                 length (filter (\<lambda>i. i \<in> fst ` set comps) idxs) = sample_size (length comps) r"
    by blast
  have "comps \<noteq> []" if "(cls, comps) \<in> set (stability_buckets order df (sorted_components_of cath cands))" for cls comps
    using that unfolding stability_buckets_def by (auto dest: group_by_key_mem)
  with i c show ?thesis unfolding sample_size_def max_one_py_int double_mul_def by blast
qed

theorem bucket_sample_counts_witness:
  "network_aware_sampling insertion_order zero_rng [''1abcA00'', ''1abcB00'', ''2xyzA00''] tie_features cath0 double_tenth
     = Inr ([''1abcA00'', ''1abcB00'', ''2xyzA00''], zero_rng)
   \<and> stability_buckets insertion_order tie_features (sorted_components_of cath0 [''1abcA00'', ''1abcB00'', ''2xyzA00''])
     = [(''stable'', [(0, [''1abcA00'', ''1abcB00''])]), (''unknown'', [(1, [''2xyzA00''])])]
   \<and> (\<exists>idxs. distinct idxs
         \<and> length (filter (\<lambda>i. i \<in> fst ` set [(0::nat, [''1abcA00'', ''1abcB00''])]) idxs)
             = nat (max 1 \<lfloor>round_double (real (1::nat) * double_tenth)\<rfloor>)
         \<and> length (filter (\<lambda>i. i \<in> fst ` set [(1::nat, [''2xyzA00''])]) idxs)
             = nat (max 1 \<lfloor>round_double (real (1::nat) * double_tenth)\<rfloor>))
   \<and> nat (max 1 \<lfloor>round_double (real (1::nat) * double_tenth)\<rfloor>) = 1
   \<and> network_aware_sampling reverse_order zero_rng [''1abcA00'', ''1abcB00'', ''2xyzA00''] tie_features cath0 double_tenth
     = Inr ([''1abcB00'', ''1abcA00''], zero_rng)
   \<and> stability_buckets reverse_order tie_features (sorted_components_of cath0 [''1abcA00'', ''1abcB00'', ''2xyzA00''])
     = [(''unknown'', [(0, [''1abcA00'', ''1abcB00'']), (1, [''2xyzA00''])])]
   \<and> (\<exists>idxs. distinct idxs
         \<and> length (filter (\<lambda>i. i \<in> fst ` set [(0::nat, [''1abcA00'', ''1abcB00'']), (1, [''2xyzA00''])]) idxs)
             = nat (max 1 \<lfloor>round_double (real (2::nat) * double_tenth)\<rfloor>))
   \<and> nat (max 1 \<lfloor>round_double (real (2::nat) * double_tenth)\<rfloor>) = 1"
proof -
  have one: "nat (max 1 \<lfloor>round_double (real (1::nat) * double_tenth)\<rfloor>) = 1"
    using one_times_tenth by (simp add: double_mul_def double_tenth_value)
  have two: "nat (max 1 \<lfloor>round_double (real (2::nat) * double_tenth)\<rfloor>) = 1"
    using two_times_tenth by (simp add: double_mul_def double_tenth_value)
  have a: "\<exists>idxs. distinct idxs
         \<and> length (filter (\<lambda>i. i \<in> fst ` set [(0::nat, [''1abcA00'', ''1abcB00''])]) idxs)
             = nat (max 1 \<lfloor>round_double (real (1::nat) * double_tenth)\<rfloor>)
         \<and> length (filter (\<lambda>i. i \<in> fst ` set [(1::nat, [''2xyzA00''])]) idxs)
             = nat (max 1 \<lfloor>round_double (real (1::nat) * double_tenth)\<rfloor>)"
    using bucket_sample_counts[OF tie_network(1)] unfolding ex_sorted tie_buckets by auto
  have b: "\<exists>idxs. distinct idxs
         \<and> length (filter (\<lambda>i. i \<in> fst ` set [(0::nat, [''1abcA00'', ''1abcB00'']), (1, [''2xyzA00''])]) idxs)
             = nat (max 1 \<lfloor>round_double (real (2::nat) * double_tenth)\<rfloor>)"
    using bucket_sample_counts[OF tie_network(2)] unfolding ex_sorted tie_buckets by auto
  show ?thesis
    using a b one two tie_network tie_buckets ex_sorted by simp
qed

section \<open>Properties of the sampler and of the pipeline\<close>

subsection \<open>What the sampler can pick\<close>

lemma cluster_members_subset:
  "cluster_members ds cs cid = Inr m \<Longrightarrow> set m \<subseteq> set ds"
proof (induction cs arbitrary: ds m)
  case Nil then show ?case by simp
next
  case (Cons c cs)
  show ?case
  proof (cases "c = cid")
    case True
    with Cons.prems obtain d ds' rest where ds: "ds = d # ds'"
      and r: "cluster_members ds' cs cid = Inr rest" and m: "m = d # rest"
      by (cases ds) (auto simp: ebind_Inr)
    from Cons.IH[OF r] ds m show ?thesis by auto
  next
    case False
    with Cons.prems have "cluster_members (tl ds) cs cid = Inr m" by simp
    from Cons.IH[OF this] show ?thesis by (cases ds) auto
  qed
qed

lemma cluster_members_nonempty:
  "cluster_members ds cs cid = Inr m \<Longrightarrow> cid \<in> set cs \<Longrightarrow> m \<noteq> []"
proof (induction cs arbitrary: ds m)
  case Nil then show ?case by simp
next
  case (Cons c cs)
  show ?case
  proof (cases "c = cid")
    case True
    with Cons.prems(1) show ?thesis by (cases ds) (auto simp: ebind_Inr)
  next
    case False
    with Cons.prems have "cluster_members (tl ds) cs cid = Inr m" "cid \<in> set cs" by auto
    then show ?thesis by (rule Cons.IH)
  qed
qed

text \<open>The members of a cluster are the domains at the positions that carry its label.\<close>

lemma cluster_members_char:
  "cluster_members ds cs cid = Inr m \<Longrightarrow>
     m = map (\<lambda>i. ds ! i) (filter (\<lambda>i. cs ! i = cid) [0..<length cs])
     \<and> (\<forall>i<length cs. cs ! i = cid \<longrightarrow> i < length ds)"
proof (induction cs arbitrary: ds m)
  case Nil
  then show ?case by simp
next
  case (Cons c cs)
  have upt: "[0..<length (c # cs)] = 0 # map Suc [0..<length cs]"
    by (simp add: upt_conv_Cons map_Suc_upt del: upt_Suc)
  have shift: "filter (\<lambda>i. (x # cs) ! i = cid) (map Suc [0..<length cs])
               = map Suc (filter (\<lambda>i. cs ! i = cid) [0..<length cs])" for x
    by (simp add: filter_map comp_def)
  show ?case
  proof (cases "c = cid")
    case True
    with Cons.prems obtain d ds' rest where ds: "ds = d # ds'"
      and r: "cluster_members ds' cs cid = Inr rest" and m: "m = d # rest"
      by (cases ds) (auto simp: ebind_Inr)
    from Cons.IH[OF r] have ih: "rest = map (\<lambda>i. ds' ! i) (filter (\<lambda>i. cs ! i = cid) [0..<length cs])"
      "\<forall>i<length cs. cs ! i = cid \<longrightarrow> i < length ds'" by auto
    have "m = map (\<lambda>i. ds ! i) (filter (\<lambda>i. (c # cs) ! i = cid) [0..<length (c # cs)])"
      unfolding upt using True ds m ih(1) by (simp add: shift comp_def)
    moreover have "\<forall>i<length (c # cs). (c # cs) ! i = cid \<longrightarrow> i < length ds"
      using ih(2) ds by (auto simp: nth_Cons split: nat.splits)
    ultimately show ?thesis by blast
  next
    case False
    with Cons.prems have r: "cluster_members (tl ds) cs cid = Inr m" by simp
    from Cons.IH[OF r] have ih: "m = map (\<lambda>i. tl ds ! i) (filter (\<lambda>i. cs ! i = cid) [0..<length cs])"
      "\<forall>i<length cs. cs ! i = cid \<longrightarrow> i < length (tl ds)" by auto
    have tl: "tl ds ! i = ds ! Suc i" if "i < length (tl ds)" for i
      using that by (cases ds) auto
    have "map (\<lambda>i. tl ds ! i) (filter (\<lambda>i. cs ! i = cid) [0..<length cs])
          = map (\<lambda>i. ds ! Suc i) (filter (\<lambda>i. cs ! i = cid) [0..<length cs])"
      using ih(2) tl by (intro map_cong) auto
    with ih(1) have "m = map (\<lambda>i. ds ! i) (filter (\<lambda>i. (c # cs) ! i = cid) [0..<length (c # cs)])"
      unfolding upt using False by (simp add: shift comp_def)
    moreover have "\<forall>i<length (c # cs). (c # cs) ! i = cid \<longrightarrow> i < length ds"
      using ih(2) False by (auto simp: nth_Cons split: nat.splits)
    ultimately show ?thesis by blast
  qed
qed

lemma cluster_members_labelled:
  assumes "cluster_members ds cs cid = Inr m"
  shows "(m \<noteq> []) = (cid \<in> set cs)"
    and "d \<in> set m \<Longrightarrow> \<exists>i<length cs. cs ! i = cid \<and> i < length ds \<and> d = ds ! i"
proof -
  from cluster_members_char[OF assms] have
    m: "m = map (\<lambda>i. ds ! i) (filter (\<lambda>i. cs ! i = cid) [0..<length cs])" and
    v: "\<forall>i<length cs. cs ! i = cid \<longrightarrow> i < length ds" by auto
  show "(m \<noteq> []) = (cid \<in> set cs)"
    unfolding m by (auto simp: filter_empty_conv in_set_conv_nth)
  show "d \<in> set m \<Longrightarrow> \<exists>i<length cs. cs ! i = cid \<and> i < length ds \<and> d = ds ! i"
    unfolding m using v by auto
qed

lemma representatives_labels:
  "representatives g ds cl ids = Inr (picked, g') \<Longrightarrow>
     list_all2 (\<lambda>d cid. \<exists>i<length cl. cl ! i = cid \<and> i < length ds \<and> d = ds ! i) picked
       (filter (\<lambda>cid. cid \<in> set cl) ids)"
proof (induction ids arbitrary: g picked g')
  case Nil then show ?case by simp
next
  case (Cons cid ids)
  from Cons.prems obtain m where m: "cluster_members ds cl cid = Inr m"
    by (auto simp: ebind_Inr)
  note lab = cluster_members_labelled[OF m]
  show ?case
  proof (cases "m = []")
    case True
    with Cons.prems m have "representatives g ds cl ids = Inr (picked, g')" by (simp add: ebind_def)
    from Cons.IH[OF this] lab(1) True show ?thesis by simp
  next
    case False
    obtain d g1 where c: "np_choice g m = (d, g1)" by (cases "np_choice g m")
    from Cons.prems m False c have
      "ebind (representatives g1 ds cl ids) (\<lambda>(ds, g2). Inr (d # ds, g2)) = Inr (picked, g')"
      by (simp add: ebind_def)
    then obtain rest where
      r: "representatives g1 ds cl ids = Inr (rest, g')" and p: "picked = d # rest"
      unfolding ebind_Inr by (auto split: prod.splits)
    from np_choice_mem[OF False c] have "d \<in> set m" .
    from lab(2)[OF this] Cons.IH[OF r] lab(1) False p show ?thesis by simp
  qed
qed

lemma representatives_props:
  "representatives g ds cl ids = Inr (picked, g') \<Longrightarrow>
     list_all2 (\<lambda>d cid. \<exists>m. cluster_members ds cl cid = Inr m \<and> d \<in> set m) picked
       (filter (\<lambda>cid. cluster_members ds cl cid \<noteq> Inr []) ids)"
proof (induction ids arbitrary: g picked g')
  case Nil then show ?case by simp
next
  case (Cons cid ids)
  from Cons.prems obtain m where m: "cluster_members ds cl cid = Inr m"
    by (auto simp: ebind_Inr)
  show ?case
  proof (cases "m = []")
    case True
    with Cons.prems m have "representatives g ds cl ids = Inr (picked, g')" by (simp add: ebind_def)
    from Cons.IH[OF this] m True show ?thesis by simp
  next
    case False
    obtain d g1 where c: "np_choice g m = (d, g1)" by (cases "np_choice g m")
    from Cons.prems m False c have
      "ebind (representatives g1 ds cl ids) (\<lambda>(ds, g2). Inr (d # ds, g2)) = Inr (picked, g')"
      by (simp add: ebind_def)
    then obtain rest where
      r: "representatives g1 ds cl ids = Inr (rest, g')" and p: "picked = d # rest"
      unfolding ebind_Inr by (auto split: prod.splits)
    from np_choice_mem[OF False c] have "d \<in> set m" .
    with Cons.IH[OF r] m False p show ?thesis by simp
  qed
qed

lemma representatives_subset:
  assumes "representatives g ds cl ids = Inr (picked, g')"
  shows "set picked \<subseteq> set ds"
proof
  fix d assume "d \<in> set picked"
  then obtain i where i: "i < length picked" "d = picked ! i" by (auto simp: in_set_conv_nth)
  from list_all2_nthD[OF representatives_props[OF assms] i(1)] i(2) obtain m where
    "cluster_members ds cl (filter (\<lambda>cid. cluster_members ds cl cid \<noteq> Inr []) ids ! i) = Inr m" "d \<in> set m"
    by auto
  with cluster_members_subset show "d \<in> set ds" by blast
qed

lemma sample_stratum_subset:
  assumes "sample_stratum kmeans df r g domain_list = Inr (picked, g')"
  shows "set picked \<subseteq> set domain_list"
proof (cases "10 \<le> length domain_list")
  case True
  show ?thesis
  proof (cases "List.map_filter (\<lambda>d. map_option feature_vector (df d)) domain_list = []")
    case e: True
    with True assms show ?thesis by (simp add: sample_stratum_def Let_def)
  next
    case False
    with True assms obtain fm clusters where
      "representatives g (filter (\<lambda>d. df d \<noteq> None) domain_list) clusters
         [0..<n_clusters_of (length domain_list) r] = Inr (picked, g')"
      by (auto simp: sample_stratum_def Let_def ebind_Inr)
    from representatives_subset[OF this] show ?thesis by auto
  qed
next
  case False
  note small = this
  show ?thesis
  proof (cases "length domain_list = 1")
    case True
    with small assms show ?thesis
      by (cases domain_list) (auto simp: sample_stratum_def split: prod.splits if_splits)
  next
    case False
    show ?thesis
    proof (cases "length domain_list > 0")
      case True
      with small False assms have
        "np_choice_k g domain_list (sample_size (length domain_list) r) = Inr (picked, g')"
        by (simp add: sample_stratum_def)
      from np_choice_k_props[OF this] show ?thesis by simp
    next
      case z: False
      with small assms show ?thesis by (simp add: sample_stratum_def)
    qed
  qed
qed

lemma sample_strata_subset:
  "sample_strata kmeans df r g ss = Inr (picked, g') \<Longrightarrow> set picked \<subseteq> \<Union>(set ` set ss)"
proof (induction ss arbitrary: g picked g')
  case Nil then show ?case by simp
next
  case (Cons s ss)
  from Cons.prems obtain p1 g1 more where
    a: "sample_stratum kmeans df r g s = Inr (p1, g1)" and
    b: "sample_strata kmeans df r g1 ss = Inr (more, g')" and
    c: "picked = p1 @ more"
    by (auto simp: ebind_Inr)
  from sample_stratum_subset[OF a] Cons.IH[OF b] c show ?case by auto
qed

lemma set_map_filter: "set (List.map_filter f xs) = {y. \<exists>x\<in>set xs. f x = Some y}"
  by (induction xs) (auto simp: List.map_filter_simps split: option.splits)

lemma group_by_key_elem:
  "(k, ys) \<in> set (group_by_key f xs) \<Longrightarrow> y \<in> set ys \<Longrightarrow> y \<in> set xs"
  using group_by_key_mem[of k ys f xs] by blast

lemma strata_level3:
  assumes "s \<in> set (map (\<lambda>(t, in_t). map fst in_t) (group_by_key f xs))" "d \<in> set s"
  shows "\<exists>p\<in>set xs. d = fst p"
proof -
  from assms(1) obtain t in_t where g: "(t, in_t) \<in> set (group_by_key f xs)" and s: "s = map fst in_t"
    by (auto simp: image_iff split: prod.splits)
  from assms(2) s obtain p where p: "p \<in> set in_t" "d = fst p" by auto
  from group_by_key_elem[OF g p(1)] p(2) show ?thesis by blast
qed

lemma strata_level2:
  assumes "s \<in> set (concat (map (\<lambda>(a, in_a). map (\<lambda>(t, in_t). map fst in_t) (group_by_key f in_a))
                               (group_by_key h xs)))" "d \<in> set s"
  shows "\<exists>p\<in>set xs. d = fst p"
proof -
  from assms(1) obtain x where x: "x \<in> set (group_by_key h xs)"
    and s: "s \<in> set ((\<lambda>(a, in_a). map (\<lambda>(t, in_t). map fst in_t) (group_by_key f in_a)) x)"
    unfolding set_concat set_map by blast
  obtain a in_a where xa: "x = (a, in_a)" by (cases x)
  with s have "s \<in> set (map (\<lambda>(t, in_t). map fst in_t) (group_by_key f in_a))" by simp
  from strata_level3[OF this assms(2)] obtain p where p: "p \<in> set in_a" "d = fst p" by blast
  from x xa have "(a, in_a) \<in> set (group_by_key h xs)" by simp
  from group_by_key_elem[OF this p(1)] p(2) show ?thesis by blast
qed

lemma strata_level1:
  assumes "s \<in> set (concat (map (\<lambda>(c, in_c).
             concat (map (\<lambda>(a, in_a). map (\<lambda>(t, in_t). map fst in_t) (group_by_key f in_a))
                         (group_by_key h in_c))) (group_by_key k xs)))" "d \<in> set s"
  shows "\<exists>p\<in>set xs. d = fst p"
proof -
  from assms(1) obtain x where x: "x \<in> set (group_by_key k xs)"
    and s: "s \<in> set ((\<lambda>(c, in_c).
             concat (map (\<lambda>(a, in_a). map (\<lambda>(t, in_t). map fst in_t) (group_by_key f in_a))
                         (group_by_key h in_c))) x)"
    unfolding set_concat set_map by blast
  obtain c in_c where xc: "x = (c, in_c)" by (cases x)
  with s have "s \<in> set (concat (map (\<lambda>(a, in_a). map (\<lambda>(t, in_t). map fst in_t) (group_by_key f in_a))
                         (group_by_key h in_c)))" by simp
  from strata_level2[OF this assms(2)] obtain p where p: "p \<in> set in_c" "d = fst p" by blast
  from x xc have "(c, in_c) \<in> set (group_by_key k xs)" by simp
  from group_by_key_elem[OF this p(1)] p(2) show ?thesis by blast
qed

lemma strata_subset: "\<Union>(set ` set (strata order dfs cath)) \<subseteq> fst ` set dfs"
proof
  fix d assume "d \<in> \<Union>(set ` set (strata order dfs cath))"
  then obtain s where s: "s \<in> set (strata order dfs cath)" "d \<in> set s" by auto
  let ?coded = "List.map_filter (\<lambda>d. map_option (\<lambda>code. (d, code)) (cath d))
             (py_set_iter order (uniq (filter (\<lambda>d. cath d \<noteq> None) (map fst dfs))))"
  from s(1) have "s \<in> set (concat (map (\<lambda>(c, in_c).
             concat (map (\<lambda>(a, in_a). map (\<lambda>(t, in_t). map fst in_t) (group_by_key (\<lambda>(d, c, a, t, h). t) in_a))
                         (group_by_key (\<lambda>(d, c, a, t, h). a) in_c))) (group_by_key (\<lambda>(d, c, a, t, h). c) ?coded)))"
    unfolding strata_def Let_def .
  from strata_level1[OF this s(2)] obtain p where p: "p \<in> set ?coded" "d = fst p" by blast
  from p(1) have "fst p \<in> fst ` set dfs"
    unfolding set_map_filter set_py_set_iter set_uniq by force
  with p(2) show "d \<in> fst ` set dfs" by simp
qed

lemma hierarchical_subset:
  assumes "hierarchical_stratified_sampling kmeans order g dfs cath r = Inr (holdout, g')"
  shows "set holdout \<subseteq> fst ` set dfs"
proof -
  from assms obtain cands g1 where
    a: "sample_strata kmeans (map_of dfs) r g (strata order dfs cath) = Inr (cands, g1)" and
    b: "network_aware_sampling order g1 cands (map_of dfs) cath r = Inr (holdout, g')"
    by (auto simp: hierarchical_stratified_sampling_def ebind_Inr)
  from sample_strata_subset[OF a] strata_subset network_output_subset[OF b]
  show ?thesis by blast
qed

lemma ex_f348: "feature_vector f_348 = [100, 0, 0, 0, 0]" "spec_feature_vector f_348 = [100, 0, 0, 0, 0, 2]"
  by (simp_all add: feature_vector_def spec_feature_vector_def rmsf_keys_def num_get_def f_348_def)

lemma map_filter_nonempty:
  "\<exists>d\<in>set ds. f d \<noteq> None \<Longrightarrow> List.map_filter f ds \<noteq> []"
  by (induction ds) (auto simp: List.map_filter_simps split: option.splits)

lemma representatives_single:
  assumes "representatives g ds cl [cid] = Inr (picked, g')" "cid \<in> set cl"
  shows "length picked = 1"
proof -
  from assms(1) obtain m where m: "cluster_members ds cl cid = Inr m"
    by (auto simp: ebind_Inr)
  from cluster_members_nonempty[OF m assms(2)] have "m \<noteq> []" .
  with m have "filter (\<lambda>cid. cluster_members ds cl cid \<noteq> Inr []) [cid] = [cid]" by simp
  with representatives_props[OF assms(1)] show ?thesis
    by (auto dest: list_all2_lengthD)
qed

lemma all_plain_filter: "filter (\<lambda>d. all_plain d \<noteq> None) xs = xs"
  by (simp add: all_plain_def)

lemma all_plain_matrix:
  "List.map_filter (\<lambda>d. map_option feature_vector (all_plain d)) xs = map (\<lambda>d. feature_vector f_plain) xs"
  by (induction xs) (simp_all add: List.map_filter_simps all_plain_def)

lemma normalize_const:
  "xs \<noteq> [] \<Longrightarrow> \<exists>m'. normalize (map (\<lambda>d. v) xs) = Inr m' \<and> length m' = length xs"
  by (cases xs) (simp_all add: normalize_def list_all_iff)

lemma cluster_members_all_zero: "cluster_members ds (replicate (length ds) 0) 0 = Inr ds"
  by (induction ds) (simp_all add: ebind_def)

lemma np_choice_zero: "np_choice zero_rng xs = (xs ! 0, zero_rng)"
  by (simp add: np_choice_def draw_zero)

lemma ex_stratum10:
  "sample_stratum kmeans_zero all_plain double_tenth zero_rng stratum10 = Inr ([''1aaaA00''], zero_rng)"
proof -
  have len: "length stratum10 = 10" by (simp add: stratum10_def)
  have ne: "stratum10 \<noteq> []" by (simp add: stratum10_def)
  have k: "n_clusters_of 10 double_tenth = 1"
    by (simp add: n_clusters_of_def double_tenth_value ten_times_tenth)
  from normalize_const[OF ne, of "feature_vector f_plain"] len obtain m' where
    n: "normalize (map (\<lambda>d. feature_vector f_plain) stratum10) = Inr m'" and l: "length m' = 10" by auto
  have km: "kmeans_zero (Suc 0) m' = Inr (replicate (length stratum10) 0)" by (simp add: kmeans_zero_def l len)
  have rep: "representatives zero_rng stratum10 (replicate (length stratum10) 0) [0] = Inr ([''1aaaA00''], zero_rng)"
    using ne by (simp add: cluster_members_all_zero ebind_def np_choice_zero) (simp add: stratum10_def)
  have mne: "map (\<lambda>d. feature_vector f_plain) stratum10 \<noteq> []" using ne by simp
  show ?thesis
    unfolding sample_stratum_def Let_def all_plain_filter all_plain_matrix len k
    using mne by (simp add: n km rep ebind_def del: representatives.simps)
qed

lemma ex_stratum10_two:
  "sample_stratum kmeans_first all_plain
     (double_mul double_tenth (double_add 1 (double_mul double_tenth (real (5::nat)))))
     zero_rng stratum10 = Inr ([''1aabA00'', ''1aaaA00''], zero_rng)"
proof -
  have len: "length stratum10 = 10" by (simp add: stratum10_def)
  have ne: "stratum10 \<noteq> []" by (simp add: stratum10_def)
  have k: "n_clusters_of 10 (1351079888211149 / 9007199254740992) = 2"
    by (simp add: n_clusters_of_def ten_times_ratio_5)
  from normalize_const[OF ne, of "feature_vector f_plain"] len obtain m' where
    n: "normalize (map (\<lambda>d. feature_vector f_plain) stratum10) = Inr m'" and l: "length m' = 10" by auto
  have km: "kmeans_first 2 m' = Inr [Suc 0, 0, 0, 0, 0, 0, 0, 0, 0, 0]"
    by (simp add: kmeans_first_def l numeral_eq_Suc)
  have c0: "cluster_members stratum10 [Suc 0, 0, 0, 0, 0, 0, 0, 0, 0, 0] 0 = Inr (tl stratum10)"
    by (simp add: stratum10_def ebind_def)
  have c1: "cluster_members stratum10 [Suc 0, 0, 0, 0, 0, 0, 0, 0, 0, 0] (Suc 0) = Inr [''1aaaA00'']"
    by (simp add: stratum10_def ebind_def)
  have rep: "representatives zero_rng stratum10 [Suc 0, 0, 0, 0, 0, 0, 0, 0, 0, 0] [0, Suc 0]
             = Inr ([''1aabA00'', ''1aaaA00''], zero_rng)"
    unfolding representatives.simps c0 c1 ebind_def
    by (simp add: np_choice_zero) (simp add: stratum10_def)
  have u: "[0..<2] = [0, Suc 0]" by (simp add: upt_rec)
  have mne: "map (\<lambda>d. feature_vector f_plain) stratum10 \<noteq> []" using ne by simp
  show ?thesis
    unfolding ratio_5 sample_stratum_def Let_def all_plain_filter all_plain_matrix len k u
    using mne by (simp add: n km rep ebind_def del: representatives.simps)
qed

subsection \<open>The refinement loop\<close>

text \<open>One pass of main.py, lines 43-51 and 66-70, is a pass of the three stages.\<close>

lemma pass_unfold:
  "(case hierarchical_stratified_sampling kmeans order g dfs cath r of
      Inl e \<Rightarrow> Inl e
    | Inr (h, g') \<Rightarrow>
        (case statistical_validation ks cdf h (map fst dfs) (map_of dfs) cath of
           Inl e \<Rightarrow> Inl e
         | Inr validation_results \<Rightarrow>
             (case map_of validation_results ''representation_index'' of
                None \<Rightarrow> Inl KeyError
              | Some ri \<Rightarrow> K h ri g')))
   = (case spec_pass
       (\<lambda>g r. sample_strata kmeans (map_of dfs) r g (strata order dfs cath))
       (\<lambda>g candidates r. network_aware_sampling order g candidates (map_of dfs) cath r)
       (\<lambda>holdout. case statistical_validation ks cdf holdout (map fst dfs) (map_of dfs) cath of
            Inl e \<Rightarrow> Inl e
          | Inr validation_results \<Rightarrow>
              (case map_of validation_results ''representation_index'' of
                 None \<Rightarrow> Inl KeyError | Some index \<Rightarrow> Inr index))
       g r of
        Inl e \<Rightarrow> Inl e
      | Inr (h, ri, g') \<Rightarrow> K h ri g')"
  by (auto simp: hierarchical_stratified_sampling_def spec_pass_def ebind_def
           split: sum.splits option.splits prod.splits)

lemma spec_pass_subset:
  assumes "spec_pass
       (\<lambda>g r. sample_strata kmeans (map_of dfs) r g (strata order dfs cath))
       (\<lambda>g candidates r. network_aware_sampling order g candidates (map_of dfs) cath r)
       (\<lambda>holdout. case statistical_validation ks cdf holdout (map fst dfs) (map_of dfs) cath of
            Inl e \<Rightarrow> Inl e
          | Inr validation_results \<Rightarrow>
              (case map_of validation_results ''representation_index'' of
                 None \<Rightarrow> Inl KeyError | Some index \<Rightarrow> Inr index))
       g r = Inr (holdout, index, g')"
  shows "set holdout \<subseteq> fst ` set dfs"
proof -
  from assms obtain cands g1 where
    a: "sample_strata kmeans (map_of dfs) r g (strata order dfs cath) = Inr (cands, g1)" and
    b: "network_aware_sampling order g1 cands (map_of dfs) cath r = Inr (holdout, g')"
    by (auto simp: spec_pass_def split: sum.splits)
  then have "hierarchical_stratified_sampling kmeans order g dfs cath r = Inr (holdout, g')"
    by (simp add: hierarchical_stratified_sampling_def ebind_def)
  then show ?thesis by (rule hierarchical_subset)
qed

lemma refine_stop:
  assumes "\<not> (ri < 0.9 \<and> iteration < max_iterations)"
  shows "refine kmeans order ks cdf dfs cath iteration ri holdout g = Inr (holdout, ri, iteration, g)"
  by (subst refine.simps) (simp only: assms if_False)

lemma refine_step:
  assumes "ri < 0.9" "iteration < max_iterations"
  shows "refine kmeans order ks cdf dfs cath iteration ri holdout g =
      (case spec_pass
       (\<lambda>g r. sample_strata kmeans (map_of dfs) r g (strata order dfs cath))
       (\<lambda>g candidates r. network_aware_sampling order g candidates (map_of dfs) cath r)
       (\<lambda>holdout. case statistical_validation ks cdf holdout (map fst dfs) (map_of dfs) cath of
            Inl e \<Rightarrow> Inl e
          | Inr validation_results \<Rightarrow>
              (case map_of validation_results ''representation_index'' of
                 None \<Rightarrow> Inl KeyError | Some index \<Rightarrow> Inr index))
       g (spec_ratio double_tenth (Suc iteration)) of
           Inl e \<Rightarrow> Inl e
         | Inr (holdout', ri', g') \<Rightarrow>
             refine kmeans order ks cdf dfs cath (Suc iteration) ri' holdout' g')"
proof -
  have c: "ri < 0.9 \<and> iteration < max_iterations" using assms by simp
  show ?thesis
    by (subst refine.simps) (simp only: c simp_thms if_True pass_unfold spec_ratio_def Suc_eq_plus1)
qed

lemma spec_ratio_zero: "spec_ratio double_tenth 0 = double_tenth"
  unfolding spec_ratio_def by (rule ratio_0)

lemma loop_meets_spec:
  "i + n = max_iterations \<Longrightarrow>
   (case spec_pass
       (\<lambda>g r. sample_strata kmeans (map_of dfs) r g (strata order dfs cath))
       (\<lambda>g candidates r. network_aware_sampling order g candidates (map_of dfs) cath r)
       (\<lambda>holdout. case statistical_validation ks cdf holdout (map fst dfs) (map_of dfs) cath of
            Inl e \<Rightarrow> Inl e
          | Inr validation_results \<Rightarrow>
              (case map_of validation_results ''representation_index'' of
                 None \<Rightarrow> Inl KeyError | Some index \<Rightarrow> Inr index))
       g (spec_ratio double_tenth i) of
      Inl e \<Rightarrow> Inl e
    | Inr (h, ri, g1) \<Rightarrow> refine kmeans order ks cdf dfs cath i ri h g1)
   = spec_refinement
       (\<lambda>g r. sample_strata kmeans (map_of dfs) r g (strata order dfs cath))
       (\<lambda>g candidates r. network_aware_sampling order g candidates (map_of dfs) cath r)
       (\<lambda>holdout. case statistical_validation ks cdf holdout (map fst dfs) (map_of dfs) cath of
            Inl e \<Rightarrow> Inl e
          | Inr validation_results \<Rightarrow>
              (case map_of validation_results ''representation_index'' of
                 None \<Rightarrow> Inl KeyError | Some index \<Rightarrow> Inr index))
       double_tenth n i g"
proof (induction n arbitrary: i g)
  case 0
  then have stop: "\<not> (ri < 0.9 \<and> i < max_iterations)" for ri :: real by simp
  show ?case by (simp add: refine_stop[OF stop] split: sum.splits)
next
  case (Suc n)
  then have lt: "i < max_iterations" and nx: "Suc i + n = max_iterations" by auto
  let ?pass = "spec_pass
       (\<lambda>g r. sample_strata kmeans (map_of dfs) r g (strata order dfs cath))
       (\<lambda>g candidates r. network_aware_sampling order g candidates (map_of dfs) cath r)
       (\<lambda>holdout. case statistical_validation ks cdf holdout (map fst dfs) (map_of dfs) cath of
            Inl e \<Rightarrow> Inl e
          | Inr validation_results \<Rightarrow>
              (case map_of validation_results ''representation_index'' of
                 None \<Rightarrow> Inl KeyError | Some index \<Rightarrow> Inr index))"
  show ?case
  proof (cases "?pass g (spec_ratio double_tenth i)")
    case (Inl e)
    then show ?thesis by simp
  next
    case (Inr x)
    obtain h ri g1 where x: "x = (h, ri, g1)" by (cases x)
    have lhs: "(case ?pass g (spec_ratio double_tenth i) of
                  Inl e \<Rightarrow> Inl e
                | Inr (h, ri, g1) \<Rightarrow> refine kmeans order ks cdf dfs cath i ri h g1)
               = refine kmeans order ks cdf dfs cath i ri h g1"
      by (simp only: Inr x sum.case prod.case)
    show ?thesis
    proof (cases "ri < 0.9")
      case True
      have rhs: "spec_refinement
       (\<lambda>g r. sample_strata kmeans (map_of dfs) r g (strata order dfs cath))
       (\<lambda>g candidates r. network_aware_sampling order g candidates (map_of dfs) cath r)
       (\<lambda>holdout. case statistical_validation ks cdf holdout (map fst dfs) (map_of dfs) cath of
            Inl e \<Rightarrow> Inl e
          | Inr validation_results \<Rightarrow>
              (case map_of validation_results ''representation_index'' of
                 None \<Rightarrow> Inl KeyError | Some index \<Rightarrow> Inr index))
       double_tenth (Suc n) i g
                 = spec_refinement
       (\<lambda>g r. sample_strata kmeans (map_of dfs) r g (strata order dfs cath))
       (\<lambda>g candidates r. network_aware_sampling order g candidates (map_of dfs) cath r)
       (\<lambda>holdout. case statistical_validation ks cdf holdout (map fst dfs) (map_of dfs) cath of
            Inl e \<Rightarrow> Inl e
          | Inr validation_results \<Rightarrow>
              (case map_of validation_results ''representation_index'' of
                 None \<Rightarrow> Inl KeyError | Some index \<Rightarrow> Inr index))
       double_tenth n (Suc i) g1"
      proof -
        from True have nle: "\<not> 0.9 \<le> ri" by simp
        show ?thesis by (simp only: spec_refinement.simps Inr x sum.case prod.case nle if_False)
      qed
      show ?thesis
        unfolding lhs rhs refine_step[OF True lt] by (rule Suc.IH[OF nx])
    next
      case False
      then have stop: "\<not> (ri < 0.9 \<and> i < max_iterations)" by simp
      have rhs: "spec_refinement
       (\<lambda>g r. sample_strata kmeans (map_of dfs) r g (strata order dfs cath))
       (\<lambda>g candidates r. network_aware_sampling order g candidates (map_of dfs) cath r)
       (\<lambda>holdout. case statistical_validation ks cdf holdout (map fst dfs) (map_of dfs) cath of
            Inl e \<Rightarrow> Inl e
          | Inr validation_results \<Rightarrow>
              (case map_of validation_results ''representation_index'' of
                 None \<Rightarrow> Inl KeyError | Some index \<Rightarrow> Inr index))
       double_tenth (Suc n) i g = Inr (h, ri, i, g1)"
      proof -
        from False have le: "0.9 \<le> ri" by simp
        show ?thesis by (simp only: spec_refinement.simps Inr x sum.case prod.case le if_True)
      qed
      show ?thesis unfolding lhs rhs by (rule refine_stop[OF stop])
    qed
  qed
qed

lemma refinement_loop_spec:
  "refinement_loop kmeans order ks cdf dfs cath g
   = spec_refinement
       (\<lambda>g r. sample_strata kmeans (map_of dfs) r g (strata order dfs cath))
       (\<lambda>g candidates r. network_aware_sampling order g candidates (map_of dfs) cath r)
       (\<lambda>holdout. case statistical_validation ks cdf holdout (map fst dfs) (map_of dfs) cath of
            Inl e \<Rightarrow> Inl e
          | Inr validation_results \<Rightarrow>
              (case map_of validation_results ''representation_index'' of
                 None \<Rightarrow> Inl KeyError | Some index \<Rightarrow> Inr index))
       double_tenth 5 0 g"
proof -
  have m: "0 + 5 = max_iterations" by (simp add: max_iterations_def)
  show ?thesis
    unfolding refinement_loop_def pass_unfold
    by (rule loop_meets_spec[OF m, unfolded spec_ratio_zero])
qed

lemma spec_refinement_result:
  "spec_refinement sampler homology_filter validator r0 n i g = Inr (h, index, it, g') \<Longrightarrow>
     i \<le> it \<and> it \<le> i + n \<and> (0.9 \<le> index \<or> it = i + n)
     \<and> (\<exists>g0. spec_pass sampler homology_filter validator g0 (spec_ratio r0 it) = Inr (h, index, g'))"
proof (induction n arbitrary: i g)
  case 0
  then show ?case by (auto split: sum.splits)
next
  case (Suc n)
  show ?case
  proof (cases "spec_pass sampler homology_filter validator g (spec_ratio r0 i)")
    case (Inl e)
    with Suc.prems show ?thesis by simp
  next
    case (Inr x)
    obtain h1 r1 g1 where x: "x = (h1, r1, g1)" by (cases x)
    show ?thesis
    proof (cases "0.9 \<le> r1")
      case True
      with Suc.prems Inr x show ?thesis by auto
    next
      case False
      with Suc.prems Inr x have
        "spec_refinement sampler homology_filter validator r0 n (Suc i) g1 = Inr (h, index, it, g')"
        by simp
      from Suc.IH[OF this] show ?thesis by auto
    qed
  qed
qed

lemma refinement_loop_subset:
  assumes "refinement_loop kmeans order ks cdf dfs cath g = Inr (holdout, ri, iteration, g')"
  shows "set holdout \<subseteq> fst ` set dfs"
proof -
  from assms have "spec_refinement
       (\<lambda>g r. sample_strata kmeans (map_of dfs) r g (strata order dfs cath))
       (\<lambda>g candidates r. network_aware_sampling order g candidates (map_of dfs) cath r)
       (\<lambda>holdout. case statistical_validation ks cdf holdout (map fst dfs) (map_of dfs) cath of
            Inl e \<Rightarrow> Inl e
          | Inr validation_results \<Rightarrow>
              (case map_of validation_results ''representation_index'' of
                 None \<Rightarrow> Inl KeyError | Some index \<Rightarrow> Inr index))
       double_tenth 5 0 g = Inr (holdout, ri, iteration, g')"
    unfolding refinement_loop_spec .
  from spec_refinement_result[OF this] obtain g0 where
    "spec_pass
       (\<lambda>g r. sample_strata kmeans (map_of dfs) r g (strata order dfs cath))
       (\<lambda>g candidates r. network_aware_sampling order g candidates (map_of dfs) cath r)
       (\<lambda>holdout. case statistical_validation ks cdf holdout (map fst dfs) (map_of dfs) cath of
            Inl e \<Rightarrow> Inl e
          | Inr validation_results \<Rightarrow>
              (case map_of validation_results ''representation_index'' of
                 None \<Rightarrow> Inl KeyError | Some index \<Rightarrow> Inr index))
       g0 (spec_ratio double_tenth iteration) = Inr (holdout, ri, g')" by blast
  then show ?thesis by (rule spec_pass_subset)
qed

subsection \<open>The pipeline on the concrete feature store\<close>

lemma ex_strata: "strata insertion_order features0 cath0 = [[''1abcA00''], [''2xyzA00'']]"
proof -
  have d: "uniq (filter (\<lambda>d. cath0 d \<noteq> None) (map fst features0)) = [''1abcA00'', ''2xyzA00'']"
    by (simp add: features0_def cath0_def)
  have c: "List.map_filter (\<lambda>d. map_option (\<lambda>code. (d, code)) (cath0 d)) [''1abcA00'', ''2xyzA00'']
           = [(''1abcA00'', (1,10,10,10)), (''2xyzA00'', (2,20,20,20))]"
    by (simp add: List.map_filter_simps cath0_def)
  have g1: "group_by_key (\<lambda>(d, c, a, t, h). c) [(''1abcA00'', (1::int,10::int,10::int,10::int)), (''2xyzA00'', (2,20,20,20))]
           = [(1, [(''1abcA00'', (1,10,10,10))]), (2, [(''2xyzA00'', (2,20,20,20))])]"
    by (simp add: group_by_key_def)
  have g2: "group_by_key (\<lambda>(d, c, a, t, h). a) [(d, (c::int, a::int, t::int, h::int))] = [(a, [(d, (c, a, t, h))])]"
       "group_by_key (\<lambda>(d, c, a, t, h). t) [(d, (c::int, a::int, t::int, h::int))] = [(t, [(d, (c, a, t, h))])]"
    for d :: domain_id and c a t h
    by (simp_all add: group_by_key_def)
  show ?thesis unfolding strata_def Let_def d py_set_iter_insertion c g1 by (simp add: g2)
qed

lemma np_random_zero: "np_random zero_rng = (0, zero_rng)"
  by (simp add: np_random_def draw_zero)

lemma ex_single: "0 < r \<Longrightarrow> sample_stratum kmeans df r zero_rng [d] = Inr ([d], zero_rng)"
  by (simp add: sample_stratum_def np_random_zero)

lemma ex_sample_strata:
  "0 < r \<Longrightarrow> sample_strata kmeans_zero df0 r zero_rng [[''1abcA00''], [''2xyzA00'']]
     = Inr ([''1abcA00'', ''2xyzA00''], zero_rng)"
  by (simp add: ex_single ebind_def)

lemma ex2_edges: "build_edges cath0 [''1abcA00'', ''2xyzA00''] = []"
  by (simp add: linked_def cath0_def)

lemma ex2_sorted: "sorted_components_of cath0 [''1abcA00'', ''2xyzA00''] = [[''1abcA00''], [''2xyzA00'']]"
proof -
  have n: "uniq [''1abcA00'', ''2xyzA00''] = [''1abcA00'', ''2xyzA00'']" by simp
  have cc: "connected_components [] [''1abcA00'', ''2xyzA00''] = [[''1abcA00''], [''2xyzA00'']]"
    unfolding connected_components_def by (simp add: grow_no_edges)
  have s: "sort_key (\<lambda>c. - int (length c)) [[''1abcA00''], [''2xyzA00'']] = [[''1abcA00''], [''2xyzA00'']]"
    by simp
  show ?thesis unfolding sorted_components_of_def ex2_edges n cc by (rule s)
qed

lemma ex2_majority: "majority_class insertion_order df0 [''1abcA00''] = ''unknown''"
  "majority_class insertion_order df0 [''2xyzA00''] = ''stable''"
  by (simp_all add: majority_class_def py_set_iter_insertion List.map_filter_simps df0_def
        features0_def f_plain_def f_rmsf_def)

lemma ex2_buckets: "stability_buckets insertion_order df0 [[''1abcA00''], [''2xyzA00'']]
    = [(''unknown'', [(0, [''1abcA00''])]), (''stable'', [(1, [''2xyzA00''])])]"
  by (simp add: stability_buckets_def group_by_key_def ex2_majority upt_rec)

lemma ex2_sample:
  assumes ss: "sample_size 1 r = 1"
  shows "sample_buckets r zero_rng [(''unknown'', [(0, [''1abcA00''])]), (''stable'', [(1, [''2xyzA00''])])]
    = Inr ([0, 1], zero_rng)"
proof -
  have c: "np_choice_k zero_rng [0..<1] 1 = Inr ([0], zero_rng)"
    using choice_one_zero[of "[0..<1]"] by simp
  have cs: "np_choice_k zero_rng [0] (Suc 0) = Inr ([0], zero_rng)"
    using choice_one_zero[of "[0]"] by simp
  have l: "length [(0::nat, [''1abcA00''])] = 1" "length [(1::nat, [''2xyzA00''])] = 1" by simp_all
  show ?thesis
    unfolding sample_buckets.simps Let_def l ss c ebind_def
    by (simp add: cs)
qed

lemma ex2_network:
  assumes ss: "sample_size 1 r = 1"
  shows "network_aware_sampling insertion_order zero_rng [''1abcA00'', ''2xyzA00''] df0 cath0 r
   = Inr ([''1abcA00'', ''2xyzA00''], zero_rng)"
  unfolding network_aware_sampling_def Let_def ex2_sorted ex2_buckets ex2_sample[OF ss] ebind_def
  by (simp add: py_set_iter_insertion)

lemma ex_hierarchical:
  assumes pos: "0 < r" and ss: "sample_size 1 r = 1"
  shows "hierarchical_stratified_sampling kmeans_zero insertion_order zero_rng features0 cath0 r
     = Inr ([''1abcA00'', ''2xyzA00''], zero_rng)"
  unfolding hierarchical_stratified_sampling_def ex_strata df0_def[symmetric]
    ex_sample_strata[OF pos] ebind_def
  by (simp add: ex2_network[OF ss])

text \<open>The six ratios of a run of main.py, each of which takes one component from a bucket of
  one.\<close>

lemma ex_ratio_sizes:
  "sample_size 1 double_tenth = 1"
  "sample_size 1 (3963167672086037 / 36028797018963968) = 1"
  "sample_size 1 (1080863910568919 / 9007199254740992) = 1"
  "sample_size 1 (1170935903116329 / 9007199254740992) = 1"
  "sample_size 1 (5044031582654955 / 36028797018963968) = 1"
  "sample_size 1 (1351079888211149 / 9007199254740992) = 1"
  by (simp_all add: sample_size_def py_int_def double_tenth_value one_times_tenth
        one_times_ratio_1 one_times_ratio_2 one_times_ratio_3 one_times_ratio_4 one_times_ratio_5)

lemma double_tenth_pos: "0 < double_tenth"
  by (simp add: double_tenth_value)

lemma ex_features0_keys: "map fst features0 = [''1abcA00'', ''2xyzA00'']"
  by (simp add: features0_def)

text \<open>A run whose first pass reaches the threshold.\<close>

lemma ex_loop:
  "refinement_loop kmeans_zero insertion_order (ks_const 1) (cdf_const (1 - 1)) features0 cath0 zero_rng
     = Inr ([''1abcA00'', ''2xyzA00''], 1, 0, zero_rng)"
proof -
  have r: "map_of (vr_plain_first 1) ''representation_index'' = Some 1" by (simp add: vr_plain_first_def)
  have v: "statistical_validation (ks_const 1) (cdf_const 0) [''1abcA00'', ''2xyzA00'']
       [''1abcA00'', ''2xyzA00''] df0 cath0 = Inr (vr_plain_first 1)"
    using ex_plain_first[of 1] by simp
  have stop: "\<not> ((1::real) < 0.9 \<and> 0 < max_iterations)" by simp
  show ?thesis
    unfolding refinement_loop_def ex_hierarchical[OF double_tenth_pos ex_ratio_sizes(1)]
      ex_features0_keys df0_def[symmetric]
    by (simp add: v r refine_stop[OF stop])
qed

lemma ex_main:
  "main kmeans_zero insertion_order (ks_const 1) (cdf_const (1 - 1)) features0 cath0 zero_rng
     = Inr ([''1abcA00'', ''2xyzA00''], [])"
proof -
  have s: "sort [''1abcA00'', ''2xyzA00''] = [''1abcA00'', ''2xyzA00'']" by simp
  show ?thesis unfolding main_def Let_def ex_loop ex_features0_keys by (simp add: s)
qed

text \<open>A run whose index stays at 0: every one of the five additional iterations is made.\<close>

lemma ex_validation_zero:
  "statistical_validation (ks_const 0) (cdf_const 1) [''1abcA00'', ''2xyzA00'']
       [''1abcA00'', ''2xyzA00''] df0 cath0 = Inr (vr_plain_first 0)"
  "map_of (vr_plain_first 0) ''representation_index'' = Some 0"
  using ex_plain_first[of 0] by (simp_all add: vr_plain_first_def)

lemma ex_refine_step:
  assumes lt: "iteration < 5"
      and c: "double_mul double_tenth (double_add 1 (double_mul double_tenth (real (iteration + 1)))) = c"
      and pos: "0 < c" and ss: "sample_size 1 c = 1"
      and nxt: "refine kmeans_zero insertion_order (ks_const 0) (cdf_const 1) features0 cath0
                  (iteration + 1) 0 [''1abcA00'', ''2xyzA00''] zero_rng = R"
  shows "refine kmeans_zero insertion_order (ks_const 0) (cdf_const 1) features0 cath0
           iteration 0 holdout zero_rng = R"
proof -
  have cnd: "(0::real) < 0.9 \<and> iteration < max_iterations" using lt by (simp add: max_iterations_def)
  show ?thesis
    apply (subst refine.simps)
    unfolding c
    by (simp only: cnd simp_thms if_True ex_hierarchical[OF pos ss] sum.case prod.case ex_features0_keys
          df0_def[symmetric] ex_validation_zero option.case nxt)
qed

lemma ex_refine_5:
  "refine kmeans_zero insertion_order (ks_const 0) (cdf_const 1) features0 cath0
     5 0 [''1abcA00'', ''2xyzA00''] zero_rng = Inr ([''1abcA00'', ''2xyzA00''], 0, 5, zero_rng)"
  by (rule refine_stop) (simp add: max_iterations_def)

lemma ex_refine_4:
  "refine kmeans_zero insertion_order (ks_const 0) (cdf_const 1) features0 cath0
     4 0 [''1abcA00'', ''2xyzA00''] zero_rng = Inr ([''1abcA00'', ''2xyzA00''], 0, 5, zero_rng)"
proof -
  have e: "(4::nat) + 1 = 5" by simp
  have pos: "(0::real) < 1351079888211149 / 9007199254740992" by simp
  show ?thesis
    by (rule ex_refine_step[of 4, unfolded e, OF _ ratio_5 pos ex_ratio_sizes(6) ex_refine_5]) simp
qed

lemma ex_refine_3:
  "refine kmeans_zero insertion_order (ks_const 0) (cdf_const 1) features0 cath0
     3 0 [''1abcA00'', ''2xyzA00''] zero_rng = Inr ([''1abcA00'', ''2xyzA00''], 0, 5, zero_rng)"
proof -
  have e: "(3::nat) + 1 = 4" by simp
  have pos: "(0::real) < 5044031582654955 / 36028797018963968" by simp
  show ?thesis
    by (rule ex_refine_step[of 3, unfolded e, OF _ ratio_4 pos ex_ratio_sizes(5) ex_refine_4]) simp
qed

lemma ex_refine_2:
  "refine kmeans_zero insertion_order (ks_const 0) (cdf_const 1) features0 cath0
     2 0 [''1abcA00'', ''2xyzA00''] zero_rng = Inr ([''1abcA00'', ''2xyzA00''], 0, 5, zero_rng)"
proof -
  have e: "(2::nat) + 1 = 3" by simp
  have pos: "(0::real) < 1170935903116329 / 9007199254740992" by simp
  show ?thesis
    by (rule ex_refine_step[of 2, unfolded e, OF _ ratio_3 pos ex_ratio_sizes(4) ex_refine_3]) simp
qed

lemma ex_refine_1:
  "refine kmeans_zero insertion_order (ks_const 0) (cdf_const 1) features0 cath0
     1 0 [''1abcA00'', ''2xyzA00''] zero_rng = Inr ([''1abcA00'', ''2xyzA00''], 0, 5, zero_rng)"
proof -
  have e: "(1::nat) + 1 = 2" by simp
  have pos: "(0::real) < 1080863910568919 / 9007199254740992" by simp
  show ?thesis
    by (rule ex_refine_step[of 1, unfolded e, OF _ ratio_2 pos ex_ratio_sizes(3) ex_refine_2]) simp
qed

lemma ex_refine_0:
  "refine kmeans_zero insertion_order (ks_const 0) (cdf_const 1) features0 cath0
     0 0 [''1abcA00'', ''2xyzA00''] zero_rng = Inr ([''1abcA00'', ''2xyzA00''], 0, 5, zero_rng)"
proof -
  have e: "(0::nat) + 1 = 1" by simp
  have pos: "(0::real) < 3963167672086037 / 36028797018963968" by simp
  show ?thesis
    by (rule ex_refine_step[of 0, unfolded e, OF _ ratio_1 pos ex_ratio_sizes(2) ex_refine_1]) simp
qed

lemma ex_loop_five:
  "refinement_loop kmeans_zero insertion_order (ks_const 0) (cdf_const 1) features0 cath0 zero_rng
     = Inr ([''1abcA00'', ''2xyzA00''], 0, 5, zero_rng)"
  unfolding refinement_loop_def ex_hierarchical[OF double_tenth_pos ex_ratio_sizes(1)]
  by (simp only: sum.case prod.case ex_features0_keys df0_def[symmetric] ex_validation_zero
        option.case ex_refine_0)

lemma normalize_length: "normalize m = Inr fm \<Longrightarrow> length fm = length m"
  by (auto simp: normalize_def split: if_splits)

lemma ex_one_cluster: "nat (max 1 \<lceil>round_double (real (10::nat) * double_tenth)\<rceil>) = 1"
proof -
  have "n_clusters_of 10 double_tenth = 1"
    by (simp add: n_clusters_of_def double_tenth_value ten_times_tenth)
  then show ?thesis unfolding n_clusters_of_def double_mul_def .
qed

lemma ex_two_clusters:
  "nat (max 1 \<lceil>round_double (real (10::nat) * (double_mul double_tenth (double_add 1 (double_mul double_tenth (real (5::nat))))))\<rceil>) = 2"
proof -
  have k: "n_clusters_of 10 (1351079888211149 / 9007199254740992) = 2"
    by (simp add: n_clusters_of_def ten_times_ratio_5)
  show ?thesis unfolding ratio_5 using k unfolding n_clusters_of_def double_mul_def .
qed

lemma ex_loop_stop:
  "refinement_loop kmeans_zero insertion_order (ks_const 1) (cdf_const 0) features0 cath0 zero_rng
     = Inr ([''1abcA00'', ''2xyzA00''], 1, 0, zero_rng)"
  using ex_loop by simp

subsection \<open>Claims about the sampler and the pipeline\<close>

text \<open>
  C5. The feature vector of a domain is claimed to hold the five base features plus the mean
  RMSF at the lowest temperature for which one is recorded. The code looks at 320K only: a
  record whose only RMSF is at 348K gets the five base features and nothing more.
\<close>

theorem feature_vector_ignores_other_temperatures:
  "numeric f_348 ''avg_rmsf_348'' = Some 2
   \<and> numeric f_348 ''avg_rmsf_320'' = None
   \<and> spec_feature_vector f_348 = [100, 0, 0, 0, 0, 2]
   \<and> feature_vector f_348 = [100, 0, 0, 0, 0]
   \<and> feature_vector f_348 \<noteq> spec_feature_vector f_348"
  by (simp add: ex_f348) (simp add: f_348_def)

text \<open>
  C5, as amended: the feature vector is the five base features plus the mean RMSF at 320K
  whenever that one is recorded, which is then also what the specification's wording gives;
  without it the vector is the five base features, whatever other temperatures are recorded.
\<close>

theorem feature_vector_uses_320_only:
  "feature_vector f =
     (if numeric f ''avg_rmsf_320'' \<noteq> None then spec_feature_vector f
      else [num_get f ''size'' 0, num_get f ''helix_pct'' 0, num_get f ''sheet_pct'' 0,
            num_get f ''core_ratio'' 0, num_get f ''avg_accessibility'' 0])"
  by (auto simp: feature_vector_def spec_feature_vector_def rmsf_keys_def num_get_def)

text \<open>
  C8. For a stratum of at least ten domains (some of them with features) the sampler
  standardises the feature vectors, asks the clusterer for k = max(1, ceil(size times ratio))
  clusters, the product a double, and picks one domain for each cluster id below k that labels
  some row, in the order of the cluster ids: the domain picked for an id is the domain of a
  row that the clusterer gave that id. Ten domains at the ratio 0.1 give k = 1, and then, the
  clusterer labelling every row with a cluster below k, exactly one representative of the
  stratum is picked.
\<close>

theorem stratum_cluster_sampling:
  assumes big: "10 \<le> length domain_list"
      and run: "sample_stratum kmeans df r g domain_list = Inr (picked, g')"
      and feat: "\<exists>d\<in>set domain_list. df d \<noteq> None"
  shows "\<exists>fm clusters.
           normalize (List.map_filter (\<lambda>d. map_option feature_vector (df d)) domain_list) = Inr fm
         \<and> kmeans (nat (max 1 \<lceil>round_double (real (length domain_list) * r)\<rceil>)) fm = Inr clusters
         \<and> list_all2 (\<lambda>d cid. \<exists>i<length clusters. clusters ! i = cid
                                  \<and> i < length (filter (\<lambda>d. df d \<noteq> None) domain_list)
                                  \<and> d = filter (\<lambda>d. df d \<noteq> None) domain_list ! i)
              picked
              (filter (\<lambda>cid. cid \<in> set clusters) [0..<nat (max 1 \<lceil>round_double (real (length domain_list) * r)\<rceil>)])
         \<and> (length domain_list = 10 \<and> r = double_tenth \<longrightarrow> nat (max 1 \<lceil>round_double (real (length domain_list) * r)\<rceil>) = 1)
         \<and> (length domain_list = 10 \<and> r = double_tenth \<and> clusters \<noteq> [] \<and> (\<forall>c\<in>set clusters. c < 1)
              \<longrightarrow> length picked = 1 \<and> set picked \<subseteq> set domain_list)"
proof -
  let ?k = "nat (max 1 \<lceil>round_double (real (length domain_list) * r)\<rceil>)"
  let ?ds = "filter (\<lambda>d. df d \<noteq> None) domain_list"
  from feat have ne: "List.map_filter (\<lambda>d. map_option feature_vector (df d)) domain_list \<noteq> []"
    by (intro map_filter_nonempty) auto
  with big run obtain fm clusters where
    nm: "normalize (List.map_filter (\<lambda>d. map_option feature_vector (df d)) domain_list) = Inr fm" and
    km: "kmeans ?k fm = Inr clusters" and
    rep: "representatives g ?ds clusters [0..<?k] = Inr (picked, g')"
    by (auto simp: sample_stratum_def Let_def ebind_Inr n_clusters_of_def double_mul_def)
  have k1: "?k = 1" if "length domain_list = 10" "r = double_tenth"
    unfolding that by (rule ex_one_cluster)
  have one: "length picked = 1 \<and> set picked \<subseteq> set domain_list"
    if "length domain_list = 10" "r = double_tenth" "clusters \<noteq> []" "\<forall>c\<in>set clusters. c < 1"
  proof -
    from that(3,4) have "0 \<in> set clusters" by (cases clusters) auto
    moreover from rep k1[OF that(1,2)] have "representatives g ?ds clusters [0] = Inr (picked, g')" by simp
    ultimately have "length picked = 1" by (rule representatives_single[rotated])
    with sample_stratum_subset[OF run] show ?thesis by simp
  qed
  from nm km representatives_labels[OF rep] k1 one show ?thesis by blast
qed

theorem stratum_cluster_sampling_witness:
  "10 \<le> length stratum10
   \<and> (\<exists>d\<in>set stratum10. all_plain d \<noteq> None)
   \<and> sample_stratum kmeans_zero all_plain double_tenth zero_rng stratum10 = Inr ([''1aaaA00''], zero_rng)
   \<and> nat (max 1 \<lceil>round_double (real (length stratum10) * double_tenth)\<rceil>) = 1
   \<and> (\<exists>fm clusters. kmeans_zero 1 fm = Inr clusters \<and> clusters \<noteq> [] \<and> (\<forall>c\<in>set clusters. c < 1))
   \<and> length [''1aaaA00''] = (1::nat) \<and> set [''1aaaA00''] \<subseteq> set stratum10
   \<and> sample_stratum kmeans_first all_plain
        (double_mul double_tenth (double_add 1 (double_mul double_tenth (real (5::nat)))))
        zero_rng stratum10 = Inr ([''1aabA00'', ''1aaaA00''], zero_rng)
   \<and> (\<exists>fm clusters.
         normalize (List.map_filter (\<lambda>d. map_option feature_vector (all_plain d)) stratum10) = Inr fm
       \<and> kmeans_first 2 fm = Inr clusters
       \<and> clusters = [1, 0, 0, 0, 0, 0, 0, 0, 0, 0]
       \<and> list_all2 (\<lambda>d cid. \<exists>i<length clusters. clusters ! i = cid
                                \<and> i < length (filter (\<lambda>d. all_plain d \<noteq> None) stratum10)
                                \<and> d = filter (\<lambda>d. all_plain d \<noteq> None) stratum10 ! i)
            [''1aabA00'', ''1aaaA00''] [0, 1])"
proof -
  have len: "length stratum10 = 10" by (simp add: stratum10_def)
  have big: "10 \<le> length stratum10" by (simp add: len)
  have "''1aaaA00'' \<in> set stratum10" by (simp add: stratum10_def)
  then have feat: "\<exists>d\<in>set stratum10. all_plain d \<noteq> None" by (auto simp: all_plain_def)
  have k: "kmeans_zero 1 [[0]] = Inr [0]" by (simp add: kmeans_zero_def)
  then have ex: "\<exists>fm clusters. kmeans_zero 1 fm = Inr clusters \<and> clusters \<noteq> [] \<and> (\<forall>c\<in>set clusters. c < 1)"
    by (intro exI[of _ "[[0]]"] exI[of _ "[0]"]) simp
  from stratum_cluster_sampling[OF big ex_stratum10 feat] len
  have k1: "nat (max 1 \<lceil>round_double (real (length stratum10) * double_tenth)\<rceil>) = 1" by blast
  have sub: "length [''1aaaA00''] = (1::nat) \<and> set [''1aaaA00''] \<subseteq> set stratum10"
    by (simp add: stratum10_def)
  have k2: "nat (max 1 \<lceil>round_double (real (length stratum10) * (double_mul double_tenth (double_add 1 (double_mul double_tenth (real (5::nat))))))\<rceil>) = 2"
    unfolding len by (rule ex_two_clusters)
  from stratum_cluster_sampling[OF big ex_stratum10_two feat] obtain fm clusters where
    nm: "normalize (List.map_filter (\<lambda>d. map_option feature_vector (all_plain d)) stratum10) = Inr fm" and
    km: "kmeans_first (nat (max 1 \<lceil>round_double (real (length stratum10) * (double_mul double_tenth (double_add 1 (double_mul double_tenth (real (5::nat))))))\<rceil>)) fm = Inr clusters" and
    la: "list_all2 (\<lambda>d cid. \<exists>i<length clusters. clusters ! i = cid
                                \<and> i < length (filter (\<lambda>d. all_plain d \<noteq> None) stratum10)
                                \<and> d = filter (\<lambda>d. all_plain d \<noteq> None) stratum10 ! i)
            [''1aabA00'', ''1aaaA00'']
            (filter (\<lambda>cid. cid \<in> set clusters)
               [0..<nat (max 1 \<lceil>round_double (real (length stratum10) * (double_mul double_tenth (double_add 1 (double_mul double_tenth (real (5::nat))))))\<rceil>)])"
    by blast
  from normalize_length[OF nm] have lf: "length fm = 10" by (simp add: all_plain_matrix len)
  from km have km2: "kmeans_first 2 fm = Inr clusters" unfolding k2 .
  then have cl: "clusters = [1, 0, 0, 0, 0, 0, 0, 0, 0, 0]"
    by (simp add: kmeans_first_def lf numeral_eq_Suc)
  have fl: "filter (\<lambda>cid. cid \<in> set clusters) [0..<2] = [0, 1]"
    unfolding cl by (simp add: upt_rec)
  from la have la2: "list_all2 (\<lambda>d cid. \<exists>i<length clusters. clusters ! i = cid
                                \<and> i < length (filter (\<lambda>d. all_plain d \<noteq> None) stratum10)
                                \<and> d = filter (\<lambda>d. all_plain d \<noteq> None) stratum10 ! i)
            [''1aabA00'', ''1aaaA00''] [0, 1]"
    unfolding k2 fl .
  from nm km2 cl la2 have two: "\<exists>fm clusters.
         normalize (List.map_filter (\<lambda>d. map_option feature_vector (all_plain d)) stratum10) = Inr fm
       \<and> kmeans_first 2 fm = Inr clusters
       \<and> clusters = [1, 0, 0, 0, 0, 0, 0, 0, 0, 0]
       \<and> list_all2 (\<lambda>d cid. \<exists>i<length clusters. clusters ! i = cid
                                \<and> i < length (filter (\<lambda>d. all_plain d \<noteq> None) stratum10)
                                \<and> d = filter (\<lambda>d. all_plain d \<noteq> None) stratum10 ! i)
            [''1aabA00'', ''1aaaA00''] [0, 1]"
    by blast
  from big feat ex_stratum10 k1 ex sub ex_stratum10_two two show ?thesis by blast
qed

text \<open>
  C3. Whenever the pipeline writes its two files, no domain is in both, and together they
  hold exactly the domains of the feature store.
\<close>

theorem holdout_training_partition:
  assumes "main kmeans order ks cdf dfs cath g = Inr (holdout_file, training_file)"
  shows "set holdout_file \<inter> set training_file = {}
       \<and> set holdout_file \<union> set training_file = fst ` set dfs"
proof -
  from assms obtain holdout ri iteration g' where
    l: "refinement_loop kmeans order ks cdf dfs cath g = Inr (holdout, ri, iteration, g')" and
    h: "holdout_file = sort holdout" and
    t: "training_file = sort (uniq (filter (\<lambda>d. d \<notin> set holdout) (map fst dfs)))"
    by (auto simp: main_def Let_def split: sum.splits if_splits)
  from refinement_loop_subset[OF l] have "set holdout \<subseteq> fst ` set dfs" .
  with h t show ?thesis by (auto simp: set_uniq)
qed

theorem holdout_training_partition_witness:
  "main kmeans_zero insertion_order (ks_const 1) (cdf_const (1 - 1)) features0 cath0 zero_rng
     = Inr ([''1abcA00'', ''2xyzA00''], [])
   \<and> set [''1abcA00'', ''2xyzA00''] \<inter> set ([] :: domain_id list) = {}
   \<and> set [''1abcA00'', ''2xyzA00''] \<union> set [] = fst ` set features0"
  using holdout_training_partition[OF ex_main] ex_main by simp

text \<open>
  C9. The refinement loop is the specification's loop over the three stages: the first attempt
  at ratio 0.1, then at most five more, attempt i at ratio 0.1 * (1 + 0.1 * i) in double
  arithmetic, each attempt a pass of the whole pipeline, in which the sampler draws the
  candidates from the strata, the homology filter reduces them to the holdout set and the
  validator gives the index of that holdout set. The loop stops at the first index of at
  least 0.9 or after the fifth additional attempt, and what it returns is the holdout set and
  the index of the last attempt it made.
\<close>

theorem refinement_loop_meets_spec:
  "refinement_loop kmeans order ks cdf dfs cath g
     = spec_refinement
       (\<lambda>g r. sample_strata kmeans (map_of dfs) r g (strata order dfs cath))
       (\<lambda>g candidates r. network_aware_sampling order g candidates (map_of dfs) cath r)
       (\<lambda>holdout. case statistical_validation ks cdf holdout (map fst dfs) (map_of dfs) cath of
            Inl e \<Rightarrow> Inl e
          | Inr validation_results \<Rightarrow>
              (case map_of validation_results ''representation_index'' of
                 None \<Rightarrow> Inl KeyError | Some index \<Rightarrow> Inr index))
       double_tenth 5 0 g
   \<and> (\<forall>h index it g'. refinement_loop kmeans order ks cdf dfs cath g = Inr (h, index, it, g') \<longrightarrow>
         it \<le> 5 \<and> (0.9 \<le> index \<or> it = 5)
         \<and> (\<exists>g0. spec_pass
       (\<lambda>g r. sample_strata kmeans (map_of dfs) r g (strata order dfs cath))
       (\<lambda>g candidates r. network_aware_sampling order g candidates (map_of dfs) cath r)
       (\<lambda>holdout. case statistical_validation ks cdf holdout (map fst dfs) (map_of dfs) cath of
            Inl e \<Rightarrow> Inl e
          | Inr validation_results \<Rightarrow>
              (case map_of validation_results ''representation_index'' of
                 None \<Rightarrow> Inl KeyError | Some index \<Rightarrow> Inr index))
       g0 (spec_ratio double_tenth it) = Inr (h, index, g')))"
proof -
  have eq: "refinement_loop kmeans order ks cdf dfs cath g
     = spec_refinement
       (\<lambda>g r. sample_strata kmeans (map_of dfs) r g (strata order dfs cath))
       (\<lambda>g candidates r. network_aware_sampling order g candidates (map_of dfs) cath r)
       (\<lambda>holdout. case statistical_validation ks cdf holdout (map fst dfs) (map_of dfs) cath of
            Inl e \<Rightarrow> Inl e
          | Inr validation_results \<Rightarrow>
              (case map_of validation_results ''representation_index'' of
                 None \<Rightarrow> Inl KeyError | Some index \<Rightarrow> Inr index))
       double_tenth 5 0 g"
    by (rule refinement_loop_spec)
  show ?thesis
    using eq spec_refinement_result[of
       "\<lambda>g r. sample_strata kmeans (map_of dfs) r g (strata order dfs cath)"
       "\<lambda>g candidates r. network_aware_sampling order g candidates (map_of dfs) cath r"
       "\<lambda>holdout. case statistical_validation ks cdf holdout (map fst dfs) (map_of dfs) cath of
            Inl e \<Rightarrow> Inl e
          | Inr validation_results \<Rightarrow>
              (case map_of validation_results ''representation_index'' of
                 None \<Rightarrow> Inl KeyError | Some index \<Rightarrow> Inr index)"
       double_tenth 5 0 g]
    by auto
qed

theorem refinement_loop_meets_spec_witness:
  "refinement_loop kmeans_zero insertion_order (ks_const 0) (cdf_const 1) features0 cath0 zero_rng
     = Inr ([''1abcA00'', ''2xyzA00''], 0, 5, zero_rng)
   \<and> spec_refinement
       (\<lambda>g r. sample_strata kmeans_zero (map_of features0) r g (strata insertion_order features0 cath0))
       (\<lambda>g candidates r. network_aware_sampling insertion_order g candidates (map_of features0) cath0 r)
       (\<lambda>holdout. case statistical_validation (ks_const 0) (cdf_const 1) holdout (map fst features0) (map_of features0) cath0 of
            Inl e \<Rightarrow> Inl e
          | Inr validation_results \<Rightarrow>
              (case map_of validation_results ''representation_index'' of
                 None \<Rightarrow> Inl KeyError | Some index \<Rightarrow> Inr index))
       double_tenth 5 0 zero_rng
     = Inr ([''1abcA00'', ''2xyzA00''], 0, 5, zero_rng)
   \<and> spec_ratio double_tenth 5 = 1351079888211149 / 9007199254740992
   \<and> (\<exists>g0. spec_pass
       (\<lambda>g r. sample_strata kmeans_zero (map_of features0) r g (strata insertion_order features0 cath0))
       (\<lambda>g candidates r. network_aware_sampling insertion_order g candidates (map_of features0) cath0 r)
       (\<lambda>holdout. case statistical_validation (ks_const 0) (cdf_const 1) holdout (map fst features0) (map_of features0) cath0 of
            Inl e \<Rightarrow> Inl e
          | Inr validation_results \<Rightarrow>
              (case map_of validation_results ''representation_index'' of
                 None \<Rightarrow> Inl KeyError | Some index \<Rightarrow> Inr index))
       g0 (spec_ratio double_tenth 5) = Inr ([''1abcA00'', ''2xyzA00''], 0, zero_rng))
   \<and> refinement_loop kmeans_zero insertion_order (ks_const 1) (cdf_const 0) features0 cath0 zero_rng
     = Inr ([''1abcA00'', ''2xyzA00''], 1, 0, zero_rng)
   \<and> spec_refinement
       (\<lambda>g r. sample_strata kmeans_zero (map_of features0) r g (strata insertion_order features0 cath0))
       (\<lambda>g candidates r. network_aware_sampling insertion_order g candidates (map_of features0) cath0 r)
       (\<lambda>holdout. case statistical_validation (ks_const 1) (cdf_const 0) holdout (map fst features0) (map_of features0) cath0 of
            Inl e \<Rightarrow> Inl e
          | Inr validation_results \<Rightarrow>
              (case map_of validation_results ''representation_index'' of
                 None \<Rightarrow> Inl KeyError | Some index \<Rightarrow> Inr index))
       double_tenth 5 0 zero_rng
     = Inr ([''1abcA00'', ''2xyzA00''], 1, 0, zero_rng)"
proof -
  note t0 = refinement_loop_meets_spec[of kmeans_zero insertion_order "ks_const 0" "cdf_const 1"
      features0 cath0 zero_rng]
  from t0 have eq0: "spec_refinement
       (\<lambda>g r. sample_strata kmeans_zero (map_of features0) r g (strata insertion_order features0 cath0))
       (\<lambda>g candidates r. network_aware_sampling insertion_order g candidates (map_of features0) cath0 r)
       (\<lambda>holdout. case statistical_validation (ks_const 0) (cdf_const 1) holdout (map fst features0) (map_of features0) cath0 of
            Inl e \<Rightarrow> Inl e
          | Inr validation_results \<Rightarrow>
              (case map_of validation_results ''representation_index'' of
                 None \<Rightarrow> Inl KeyError | Some index \<Rightarrow> Inr index))
       double_tenth 5 0 zero_rng
     = Inr ([''1abcA00'', ''2xyzA00''], 0, 5, zero_rng)" by (simp only: ex_loop_five)
  from t0 ex_loop_five have p0: "\<exists>g0. spec_pass
       (\<lambda>g r. sample_strata kmeans_zero (map_of features0) r g (strata insertion_order features0 cath0))
       (\<lambda>g candidates r. network_aware_sampling insertion_order g candidates (map_of features0) cath0 r)
       (\<lambda>holdout. case statistical_validation (ks_const 0) (cdf_const 1) holdout (map fst features0) (map_of features0) cath0 of
            Inl e \<Rightarrow> Inl e
          | Inr validation_results \<Rightarrow>
              (case map_of validation_results ''representation_index'' of
                 None \<Rightarrow> Inl KeyError | Some index \<Rightarrow> Inr index))
       g0 (spec_ratio double_tenth 5) = Inr ([''1abcA00'', ''2xyzA00''], 0, zero_rng)" by blast
  have r5: "spec_ratio double_tenth 5 = 1351079888211149 / 9007199254740992"
    unfolding spec_ratio_def by (rule ratio_5)
  note t1 = refinement_loop_meets_spec[of kmeans_zero insertion_order "ks_const 1" "cdf_const 0"
      features0 cath0 zero_rng]
  from t1 have eq1: "spec_refinement
       (\<lambda>g r. sample_strata kmeans_zero (map_of features0) r g (strata insertion_order features0 cath0))
       (\<lambda>g candidates r. network_aware_sampling insertion_order g candidates (map_of features0) cath0 r)
       (\<lambda>holdout. case statistical_validation (ks_const 1) (cdf_const 0) holdout (map fst features0) (map_of features0) cath0 of
            Inl e \<Rightarrow> Inl e
          | Inr validation_results \<Rightarrow>
              (case map_of validation_results ''representation_index'' of
                 None \<Rightarrow> Inl KeyError | Some index \<Rightarrow> Inr index))
       double_tenth 5 0 zero_rng
     = Inr ([''1abcA00'', ''2xyzA00''], 1, 0, zero_rng)" by (simp only: ex_loop_stop)
  from ex_loop_five eq0 r5 p0 ex_loop_stop eq1 show ?thesis by blast
qed
end
